theory Spec2Isabelle
  imports Main "HOL-Library.AList" "HOL-Library.Char_ord" "HOL-Library.List_Lexorder"
begin

section \<open>Go values used by the router and the dispatch handler\<close>

text \<open>
  Go strings are byte sequences, modelled as \<open>string\<close> (a list of 8-bit characters).
  A Go map is modelled as an association list read through \<open>map_of\<close>: an absent key
  reads as \<open>None\<close>, \<open>m[k] = v\<close> is \<open>AList.update k v m\<close> and \<open>delete(m, k)\<close> is
  \<open>AList.delete k m\<close>. Wherever the source ranges over a map, the model ranges over the
  distinct keys of the list and reads each value with \<open>map_of\<close>, so that no result
  depends on a position in the list. A nil map or slice that the source tells apart from
  an empty one is an \<open>option\<close> (\<open>None\<close> is nil).
\<close>

type_synonym Params = "(string \<times> string) list"

definition keys :: "('k \<times> 'v) list \<Rightarrow> 'k list" where
  "keys m = remdups (map fst m)"

text \<open>\<open>strings.Trim(s, "/")\<close> for a one-byte cutset: every leading and trailing \<open>c\<close> goes.\<close>

definition strings_Trim :: "string \<Rightarrow> char \<Rightarrow> string" where
  "strings_Trim s c = rev (dropWhile (\<lambda>x. x = c) (rev (dropWhile (\<lambda>x. x = c) s)))"

text \<open>\<open>strings.Split(s, "/")\<close> for a one-byte separator; the empty string gives \<open>[""]\<close>.\<close>

fun strings_Split :: "string \<Rightarrow> char \<Rightarrow> string list" where
  "strings_Split [] c = [[]]"
| "strings_Split (x # xs) c =
     (if x = c then [] # strings_Split xs c
      else (case strings_Split xs c of
              [] \<Rightarrow> [[x]]
            | w # ws \<Rightarrow> (x # w) # ws))"

section \<open>router/router.go\<close>

text \<open>
  \<open>Matched\<close>: the handler and the extracted parameters (a Go map that may be nil).
  The \<open>Endpoint\<close> field is never set by the built-in router and is left out.
\<close>

record 'h Matched =
  Handler :: 'h
  Params :: "Params option"

record segment =
  lit :: string
  name :: string
  isParam :: bool

record 'h routeEntry =
  pattern :: string
  segs :: "segment list"
  h :: 'h

record 'h BuiltinRouter =
  exact :: "(string \<times> (string \<times> 'h) list) list"
  param :: "(string \<times> 'h routeEntry list) list"

definition NewBuiltinRouter :: "'h BuiltinRouter" where
  "NewBuiltinRouter = \<lparr>exact = [], param = []\<rparr>"

text \<open>Reading \<open>r.param[method]\<close>: the nil slice of an absent key has no entries.\<close>

definition entries_of :: "(string \<times> 'e list) list \<Rightarrow> string \<Rightarrow> 'e list" where
  "entries_of m method = (case map_of m method of None \<Rightarrow> [] | Some es \<Rightarrow> es)"

definition splitPath :: "string \<Rightarrow> string list" where
  "splitPath p = (if p = ''/'' then [[]] else strings_Split (strings_Trim p CHR ''/'') CHR ''/'')"

definition isParamSeg :: "string \<Rightarrow> bool" where
  "isParamSeg s \<longleftrightarrow>
     (length s > 0 \<and> s ! 0 = CHR '':'') \<or>
     (length s > 1 \<and> s ! 0 = CHR ''{'' \<and> s ! (length s - 1) = CHR ''}'')"

text \<open>\<open>trimDelims\<close> indexes \<open>s[0]\<close>; on the empty string the source panics, here \<open>None\<close>.\<close>

definition trimDelims :: "string \<Rightarrow> string option" where
  "trimDelims s =
     (if s = [] then None
      else if s ! 0 = CHR '':'' then Some (drop 1 s)
      else if s ! 0 = CHR ''{'' \<and> s ! (length s - 1) = CHR ''}''
        then Some (take (length s - 1 - 1) (drop 1 s))
      else Some s)"

definition hasParam :: "string \<Rightarrow> bool" where
  "hasParam p = list_ex isParamSeg (splitPath p)"

text \<open>
  \<open>compile\<close> calls \<open>trimDelims\<close> only on a parameter segment, which is never empty,
  so the panic branch of \<open>trimDelims\<close> is not reachable from it.
\<close>

definition compile_seg :: "string \<Rightarrow> segment" where
  "compile_seg p =
     (if isParamSeg p
      then \<lparr>lit = [], name = (case trimDelims p of None \<Rightarrow> [] | Some n \<Rightarrow> n), isParam = True\<rparr>
      else \<lparr>lit = p, name = [], isParam = False\<rparr>)"

definition compile :: "string \<Rightarrow> segment list" where
  "compile pat = map compile_seg (splitPath pat)"

text \<open>
  The loop of \<open>match\<close> over \<open>segs\<close> with \<open>parts[i]\<close> read alongside. The lengths are
  equal when the loop starts; running out of parts would be an index panic in the source
  and is \<open>None\<close> here.
\<close>

fun match_loop :: "segment list \<Rightarrow> string list \<Rightarrow> Params \<Rightarrow> Params option" where
  "match_loop [] parts params = Some params"
| "match_loop (sg # sgs) [] params = None"
| "match_loop (sg # sgs) (pp # pps) params =
     (if isParam sg then
        (if pp = [] then None
         else match_loop sgs pps (AList.update (name sg) pp params))
      else if lit sg \<noteq> pp then None
      else match_loop sgs pps params)"

definition match :: "segment list \<Rightarrow> string \<Rightarrow> Params option" where
  "match sgs path =
     (let parts = splitPath path in
      if length parts \<noteq> length sgs then None
      else match_loop sgs parts [])"

text \<open>
  A request, as far as the router and the dispatch handler read it: the method, the URL
  path, the declared content length (\<open>-1\<close> when unknown), the parsed query values, the
  body, and the two values the handler puts in the request's context. \<open>ContentLength\<close>
  and the body limit are \<open>int64\<close> in the source; they are only compared with each other
  and with zero, so \<open>int\<close> carries them without loss.
\<close>

datatype body = Plain string | MaxBytesReader body int

datatype qvalue = QString string | QStrings "string list"

record request =
  Method :: string
  Path :: string
  ContentLength :: int
  Query :: "(string \<times> string list) list"
  Body :: body
  ctxQueryMap :: "(string \<times> qvalue) list option"
  ctxRouteParams :: "Params option"

text \<open>
  \<open>Register\<close>: the handler argument may be nil (\<open>None\<close>). The returned error is always
  nil, so the model returns the router alone.
\<close>

definition Register ::
  "'h BuiltinRouter \<Rightarrow> string \<Rightarrow> string \<Rightarrow> 'h option \<Rightarrow> 'h BuiltinRouter" where
  "Register r method pat ho =
     (case ho of
        None \<Rightarrow> r
      | Some hv \<Rightarrow>
          if method = [] \<or> pat = [] then r
          else if \<not> hasParam pat then
            (let mm = (case map_of (exact r) method of None \<Rightarrow> [] | Some mm \<Rightarrow> mm)
             in r\<lparr>exact := AList.update method (AList.update pat hv mm) (exact r)\<rparr>)
          else
            r\<lparr>param := AList.update method
                 (entries_of (param r) method @ [\<lparr>pattern = pat, segs = compile pat, h = hv\<rparr>])
                 (param r)\<rparr>)"

definition Unregister :: "'h BuiltinRouter \<Rightarrow> string \<Rightarrow> string \<Rightarrow> 'h BuiltinRouter" where
  "Unregister r method pat =
     (let r1 = (case map_of (exact r) method of
                  None \<Rightarrow> r
                | Some mm \<Rightarrow> r\<lparr>exact := AList.update method (AList.delete pat mm) (exact r)\<rparr>);
          entries = entries_of (param r1) method
      in if length entries > 0 then
           (let dst = filter (\<lambda>e. pattern e \<noteq> pat) entries
            in if length dst = 0 then r1\<lparr>param := AList.delete method (param r1)\<rparr>
               else r1\<lparr>param := AList.update method dst (param r1)\<rparr>)
         else r1)"

text \<open>The scan of \<open>Match\<close> over the parameterized entries, in list order.\<close>

fun match_entries :: "'h routeEntry list \<Rightarrow> string \<Rightarrow> 'h Matched option" where
  "match_entries [] path = None"
| "match_entries (e # es) path =
     (case match (segs e) path of
        Some ps \<Rightarrow> Some \<lparr>Handler = h e, Params = Some ps\<rparr>
      | None \<Rightarrow> match_entries es path)"

definition exact_lookup :: "'h BuiltinRouter \<Rightarrow> string \<Rightarrow> string \<Rightarrow> 'h option" where
  "exact_lookup r method path =
     (case map_of (exact r) method of None \<Rightarrow> None | Some mm \<Rightarrow> map_of mm path)"

definition Match :: "'h BuiltinRouter \<Rightarrow> request \<Rightarrow> 'h Matched option" where
  "Match r req =
     (case exact_lookup r (Method req) (Path req) of
        Some hv \<Rightarrow> Some \<lparr>Handler = hv, Params = Some []\<rparr>
      | None \<Rightarrow> match_entries (entries_of (param r) (Method req)) (Path req))"

section \<open>The matching rule in the words of the specification\<close>

text \<open>
  A pattern segment accepts a path segment: a literal has to equal it, a parameter
  has to find it non-empty.
\<close>

definition seg_accepts :: "segment \<Rightarrow> string \<Rightarrow> bool" where
  "seg_accepts sg pp = (if isParam sg then pp \<noteq> [] else lit sg = pp)"

text \<open>
  An entry qualifies for a path: equal segment counts, and every segment accepts the
  path segment at its position.
\<close>

definition spec_qualifies :: "segment list \<Rightarrow> string list \<Rightarrow> bool" where
  "spec_qualifies sgs parts \<longleftrightarrow> length sgs = length parts \<and> list_all2 seg_accepts sgs parts"

text \<open>
  The bindings of a qualifying entry: every parameter segment binds its name to the path
  segment at its position (a name used twice keeps the later segment).
\<close>

definition spec_bindings :: "segment list \<Rightarrow> string list \<Rightarrow> (string \<rightharpoonup> string)" where
  "spec_bindings sgs parts =
     foldl (\<lambda>m (sg, pp). if isParam sg then m(name sg \<mapsto> pp) else m) Map.empty (zip sgs parts)"

section \<open>Concrete requests and routers used in the examples\<close>

definition req0 :: request where
  "req0 = \<lparr>Method = ''GET'', Path = ''/'', ContentLength = 0, Query = [], Body = Plain [],
      ctxQueryMap = None, ctxRouteParams = None\<rparr>"

definition demo_router :: "nat BuiltinRouter" where
  "demo_router =
     Register (Register (Register NewBuiltinRouter ''GET'' ''/users'' (Some 1))
       ''GET'' ''/users/:id'' (Some 2)) ''GET'' ''/{kind}/new'' (Some 3)"

text \<open>A router on which the same parameterized pattern was registered twice.\<close>

definition twice_router :: "nat BuiltinRouter" where
  "twice_router =
     Register (Register NewBuiltinRouter ''GET'' ''/a/:x'' (Some 1)) ''GET'' ''/a/:x'' (Some 2)"

section \<open>Registration and removal in the words of the specification\<close>

text \<open>
  Registering a parameterized pattern as the specification words it: an entry with the
  same pattern string has its handler replaced where it stands, otherwise a new entry is
  appended.
\<close>

definition spec_register_entries ::
  "'h routeEntry list \<Rightarrow> string \<Rightarrow> 'h \<Rightarrow> 'h routeEntry list" where
  "spec_register_entries es pat hv =
     (if list_ex (\<lambda>e. pattern e = pat) es
      then map (\<lambda>e. if pattern e = pat then e\<lparr>h := hv\<rparr> else e) es
      else es @ [\<lparr>pattern = pat, segs = compile pat, h = hv\<rparr>])"

text \<open>
  Removal as the specification words it: only the first entry with the pattern string
  goes.
\<close>

definition spec_remove_first :: "string \<Rightarrow> 'h routeEntry list \<Rightarrow> 'h routeEntry list" where
  "spec_remove_first pat es =
     (case find (\<lambda>e. pattern e = pat) es of None \<Rightarrow> es | Some e \<Rightarrow> remove1 e es)"

section \<open>router/methods.go\<close>

text \<open>
  \<open>append(s, xs...)\<close> on a slice that may be nil: appending nothing to nil stays nil.
  \<open>make([]string, 0, n)\<close> is the empty slice that is not nil, \<open>Some []\<close>.
\<close>

definition go_append :: "'a list option \<Rightarrow> 'a list \<Rightarrow> 'a list option" where
  "go_append s xs =
     (case s of None \<Rightarrow> (if xs = [] then None else Some xs) | Some ys \<Rightarrow> Some (ys @ xs))"

text \<open>\<open>matchSegments\<close> repeats the body of \<open>match\<close>.\<close>

definition matchSegments :: "segment list \<Rightarrow> string \<Rightarrow> Params option" where
  "matchSegments sgs path =
     (let parts = splitPath path in
      if length parts \<noteq> length sgs then None
      else match_loop sgs parts [])"

definition order :: "string list" where
  "order = [''OPTIONS'', ''GET'', ''HEAD'', ''POST'', ''PUT'', ''PATCH'', ''DELETE'']"

text \<open>
  The loop over \<open>order\<close>: a method in the set is appended to \<open>out\<close> and deleted from
  the set. The set \<open>map[string]struct{}\<close> is a list of its members without repetition.
\<close>

definition take_ordered ::
  "string list option \<times> string list \<Rightarrow> string \<Rightarrow> string list option \<times> string list" where
  "take_ordered acc m =
     (case acc of (out, s) \<Rightarrow>
        if m \<in> set s then (go_append out [m], removeAll m s) else (out, s))"

definition MethodsFor :: "'h BuiltinRouter \<Rightarrow> string \<Rightarrow> string list option" where
  "MethodsFor r path =
     (let set0 = foldl (\<lambda>s m. case map_of (exact r) m of
                                 None \<Rightarrow> s
                               | Some table \<Rightarrow>
                                   if map_of table path \<noteq> None then List.insert m s else s)
                   [] (keys (exact r));
          set1 = foldl (\<lambda>s m. foldl (\<lambda>s e. if matchSegments (segs e) path \<noteq> None
                                              then List.insert m s else s)
                                 s (entries_of (param r) m))
                   set0 (keys (param r));
          set2 = (if ''GET'' \<in> set set1 then List.insert ''HEAD'' set1 else set1);
          set3 = (if length set2 > 0 then List.insert ''OPTIONS'' set2 else set2);
          (out, set4) = foldl take_ordered (Some [], set3) order;
          rest = sort set4
      in go_append out rest)"
section \<open>The allowed methods in the words of the specification\<close>

text \<open>
  The methods with a route that matches the path: an exact route equal to the path, or
  a parameterized entry that qualifies for it.
\<close>

definition spec_matched :: "'h BuiltinRouter \<Rightarrow> string \<Rightarrow> string set" where
  "spec_matched r path =
     {m \<in> set (keys (exact r)) \<union> set (keys (param r)).
        exact_lookup r m path \<noteq> None \<or>
        (\<exists>e \<in> set (entries_of (param r) m). spec_qualifies (segs e) (splitPath path))}"

text \<open>\<open>HEAD\<close> comes with \<open>GET\<close>, and \<open>OPTIONS\<close> with anything at all.\<close>

definition spec_allow :: "string set \<Rightarrow> string set" where
  "spec_allow M =
     M \<union> (if ''GET'' \<in> M then {''HEAD''} else {}) \<union> (if M \<noteq> {} then {''OPTIONS''} else {})"

text \<open>
  The order of the result: the seven known methods in their fixed order, then the other
  methods in lexicographic (byte) order.
\<close>

definition spec_ordered :: "string set \<Rightarrow> string list" where
  "spec_ordered A = filter (\<lambda>m. m \<in> A) order @ sorted_list_of_set (A - set order)"

text \<open>A sequence of \<open>Register\<close> calls on a router, in the order of the list.\<close>

definition register_all ::
  "(string \<times> string \<times> 'h option) list \<Rightarrow> 'h BuiltinRouter \<Rightarrow> 'h BuiltinRouter" where
  "register_all regs r = foldl (\<lambda>r (m, p, ho). Register r m p ho) r regs"

text \<open>A registered pattern matches a path: literally, or segment by segment.\<close>

definition spec_route_matches :: "string \<Rightarrow> string \<Rightarrow> bool" where
  "spec_route_matches p path =
     (if hasParam p then spec_qualifies (compile p) (splitPath path) else p = path)"

section \<open>event/event.go and server/response_writer.go\<close>

text \<open>
  A Go value of type \<open>any\<close>: a string, an error (by its message) or another value (by
  its \<open>%v\<close> rendering). \<open>fmt_v\<close> is \<open>fmt.Sprintf("%v", x)\<close>.
\<close>

datatype anyval = AString string | AError string | AOther string

fun fmt_v :: "anyval \<Rightarrow> string" where
  "fmt_v (AString s) = s"
| "fmt_v (AError s) = s"
| "fmt_v (AOther s) = s"

record Event =
  Type :: string
  Message :: string
  Data :: "(string \<times> anyval) list option"

definition NewEvent :: "string \<Rightarrow> string \<Rightarrow> Event" where
  "NewEvent eventType message = \<lparr>Type = eventType, Message = message, Data = None\<rparr>"

definition WithData :: "Event \<Rightarrow> (string \<times> anyval) list \<Rightarrow> Event" where
  "WithData event d = event\<lparr>Data := Some d\<rparr>"

text \<open>
  The calls a handler makes on its \<open>http.ResponseWriter\<close> (\<open>Header().Set\<close>,
  \<open>Header().Del\<close>, \<open>WriteHeader\<close>, \<open>Write\<close>) and on the event emitter (\<open>Emit\<close>).
\<close>

datatype call =
    HeaderSet string string
  | HeaderDel string
  | WriteHeader int
  | Write string
  | Emit Event

text \<open>
  The \<open>http.ResponseWriter\<close> that \<open>ServeHTTP\<close> is given is an interface of the standard
  library; it is modelled as a recorder: its header map, and the \<open>WriteHeader\<close> and
  \<open>Write\<close> calls it received, in order. Its \<open>Write\<close> takes all the bytes and returns
  their number and no error.
\<close>

record ResponseWriter =
  Header :: "(string \<times> string) list"
  received :: "call list"

record trackingResponseWriter =
  inner :: ResponseWriter
  wroteHeader :: bool
  bytesWritten :: int

definition newTrackingResponseWriter :: "ResponseWriter \<Rightarrow> trackingResponseWriter" where
  "newTrackingResponseWriter w = \<lparr>inner = w, wroteHeader = False, bytesWritten = 0\<rparr>"

definition trackingResponseWriter_WriteHeader ::
  "trackingResponseWriter \<Rightarrow> int \<Rightarrow> trackingResponseWriter" where
  "trackingResponseWriter_WriteHeader w code =
     (if wroteHeader w then w
      else w\<lparr>wroteHeader := True,
             inner := (inner w)\<lparr>received := received (inner w) @ [WriteHeader code]\<rparr>\<rparr>)"

definition trackingResponseWriter_Write ::
  "trackingResponseWriter \<Rightarrow> string \<Rightarrow> trackingResponseWriter" where
  "trackingResponseWriter_Write w d =
     (let w1 = (if \<not> wroteHeader w then trackingResponseWriter_WriteHeader w 200 else w);
          n = int (length d)
      in w1\<lparr>inner := (inner w1)\<lparr>received := received (inner w1) @ [Write d]\<rparr>,
            bytesWritten := bytesWritten w1 + n\<rparr>)"

definition WroteHeader :: "trackingResponseWriter \<Rightarrow> bool" where
  "WroteHeader w = wroteHeader w"

definition CanWriteHeader :: "trackingResponseWriter \<Rightarrow> bool" where
  "CanWriteHeader w = (\<not> wroteHeader w)"

text \<open>
  One call on the tracking writer, with the emitter's log beside it. \<open>Header()\<close> is the
  embedded writer's header map.
\<close>

fun perform ::
  "trackingResponseWriter \<times> Event list \<Rightarrow> call \<Rightarrow> trackingResponseWriter \<times> Event list" where
  "perform (w, es) (HeaderSet k v) =
     (w\<lparr>inner := (inner w)\<lparr>Header := AList.update k v (Header (inner w))\<rparr>\<rparr>, es)"
| "perform (w, es) (HeaderDel k) =
     (w\<lparr>inner := (inner w)\<lparr>Header := AList.delete k (Header (inner w))\<rparr>\<rparr>, es)"
| "perform (w, es) (WriteHeader code) = (trackingResponseWriter_WriteHeader w code, es)"
| "perform (w, es) (Write d) = (trackingResponseWriter_Write w d, es)"
| "perform (w, es) (Emit e) = (w, es @ [e])"

definition perform_all ::
  "trackingResponseWriter \<times> Event list \<Rightarrow> call list \<Rightarrow> trackingResponseWriter \<times> Event list" where
  "perform_all st cs = foldl perform st cs"

text \<open>The status codes and the body bytes a recorder received.\<close>

definition status_codes :: "call list \<Rightarrow> int list" where
  "status_codes cs = concat (map (\<lambda>c. case c of WriteHeader code \<Rightarrow> [code] | _ \<Rightarrow> []) cs)"

definition body_bytes :: "call list \<Rightarrow> string" where
  "body_bytes cs = concat (map (\<lambda>c. case c of Write d \<Rightarrow> d | _ \<Rightarrow> []) cs)"

fun is_Write :: "call \<Rightarrow> bool" where
  "is_Write (Write d) = True"
| "is_Write c = False"

text \<open>
  The one status the specification allows downstream for a sequence of calls: the code
  of the first \<open>WriteHeader\<close> when no \<open>Write\<close> comes before it, 200 when a \<open>Write\<close> comes
  first, none when there is neither.
\<close>

fun spec_status :: "call list \<Rightarrow> call list" where
  "spec_status [] = []"
| "spec_status (WriteHeader code # cs) = [WriteHeader code]"
| "spec_status (Write d # cs) = [WriteHeader 200]"
| "spec_status (c # cs) = spec_status cs"

section \<open>net/http and strings, as far as the dispatch handler uses them\<close>

text \<open>
  A handler (\<open>http.Handler\<close>) is modelled by what it does with a request: the calls it
  makes, in order, on the \<open>ResponseWriter\<close> it is given and on the emitter, and the value
  it panics with after them, if it panics (\<open>None\<close>: it returns).
\<close>

type_synonym handler = "request \<Rightarrow> call list \<times> anyval option"

text \<open>
  \<open>http.Error\<close> of the standard library: it drops \<open>Content-Length\<close>, sets the content
  type and \<open>nosniff\<close>, writes the status and then the message and a newline.
\<close>

definition http_Error :: "string \<Rightarrow> int \<Rightarrow> call list" where
  "http_Error msg code =
     [HeaderDel ''Content-Length'',
      HeaderSet ''Content-Type'' ''text/plain; charset=utf-8'',
      HeaderSet ''X-Content-Type-Options'' ''nosniff'',
      WriteHeader code,
      Write (msg @ [CHR 0x0A])]"

definition NotFoundHandler :: handler where
  "NotFoundHandler = (\<lambda>r. (http_Error ''404 page not found'' 404, None))"

fun strings_Join :: "string list \<Rightarrow> string \<Rightarrow> string" where
  "strings_Join [] sep = []"
| "strings_Join [x] sep = x"
| "strings_Join (x # y # xs) sep = x @ sep @ strings_Join (y # xs) sep"

definition strings_HasPrefix :: "string \<Rightarrow> string \<Rightarrow> bool" where
  "strings_HasPrefix s p = (length p \<le> length s \<and> take (length p) s = p)"

definition strings_HasSuffix :: "string \<Rightarrow> string \<Rightarrow> bool" where
  "strings_HasSuffix s p = (length p \<le> length s \<and> drop (length s - length p) s = p)"

text \<open>\<open>len\<close> of a slice or map that may be nil.\<close>

definition go_len :: "'a list option \<Rightarrow> nat" where
  "go_len s = (case s of None \<Rightarrow> 0 | Some xs \<Rightarrow> length xs)"

definition go_elems :: "'a list option \<Rightarrow> 'a list" where
  "go_elems s = (case s of None \<Rightarrow> [] | Some xs \<Rightarrow> xs)"

text \<open>
  Reading a request body to its end (\<open>io.ReadAll\<close>). \<open>http.MaxBytesReader\<close> of the
  standard library fails a read that goes beyond its limit.
\<close>

datatype read_error = MaxBytesError int

fun ReadAll :: "body \<Rightarrow> read_error + string" where
  "ReadAll (Plain bs) = Inr bs"
| "ReadAll (MaxBytesReader b n) =
     (case ReadAll b of
        Inl e \<Rightarrow> Inl e
      | Inr bs \<Rightarrow> if n < int (length bs) then Inl (MaxBytesError n) else Inr bs)"

section \<open>querydec/querydec.go\<close>

definition PlainDecoder_Decode :: "(string \<times> string list) list \<Rightarrow> (string \<times> qvalue) list" where
  "PlainDecoder_Decode v =
     map (\<lambda>k. (k, (case entries_of v k of [x] \<Rightarrow> QString x | vals \<Rightarrow> QStrings vals))) (keys v)"

section \<open>The dispatch handler: Handler and ServeHTTP\<close>

text \<open>
  \<open>router.Router\<close> as the handler uses it: \<open>Match\<close>, and \<open>MethodsFor\<close> when the router
  has that method (the type assertion in \<open>allowedMethods\<close>).
\<close>

record Router =
  Router_Match :: "request \<Rightarrow> handler Matched option"
  Router_MethodsFor :: "(string \<Rightarrow> string list option) option"

definition builtin :: "handler BuiltinRouter \<Rightarrow> Router" where
  "builtin br = \<lparr>Router_Match = Match br, Router_MethodsFor = Some (MethodsFor br)\<rparr>"

text \<open>
  \<open>Handler\<close>. The emitter is the log that \<open>Emit\<close> calls are appended to; it is assumed
  not nil and its \<open>Emit\<close> to return. The query decoder's error is dropped by the source
  (\<open>qm, _ :=\<close>), so the decoder is a function to the decoded map.
\<close>

record Handler =
  router :: Router
  queryDecoder :: "(string \<times> string list) list \<Rightarrow> (string \<times> qvalue) list"
  notFound :: handler
  recoverer :: "handler \<Rightarrow> handler"
  bodyLimit :: int
  registeredRoutes :: "(string \<times> (string \<times> bool) list) list"

definition EventPanic :: string where
  "EventPanic = ''event_panic''"

definition panicRecovery :: "anyval \<Rightarrow> call list" where
  "panicRecovery err =
     Emit (WithData (NewEvent EventPanic (''Panic recovered: '' @ fmt_v err)) [(''panic'', err)])
     # http_Error ''Internal Server Error'' 500"

text \<open>
  \<open>createRecoverer\<close>: the deferred function recovers the panic of \<open>next\<close> and calls
  \<open>panicRecovery\<close> on the same writer; the wrapped handler then returns.
\<close>

definition createRecoverer :: "handler \<Rightarrow> handler" where
  "createRecoverer next = (\<lambda>r.
     (case next r of
        (cs, None) \<Rightarrow> (cs, None)
      | (cs, Some err) \<Rightarrow> (cs @ panicRecovery err, None)))"

text \<open>\<open>NewHandler\<close> without options.\<close>

definition NewHandler :: Handler where
  "NewHandler =
     \<lparr>router = builtin NewBuiltinRouter,
      queryDecoder = PlainDecoder_Decode,
      notFound = NotFoundHandler,
      recoverer = createRecoverer,
      bodyLimit = 2 * 1024 * 1024,
      registeredRoutes = []\<rparr>"

text \<open>
  \<open>discardingWriter\<close> embeds the writer it wraps: \<open>Header\<close> and \<open>WriteHeader\<close> go
  through, \<open>Write\<close> returns \<open>len(p)\<close> without a call below. Of the calls a handler makes
  on it, these reach the wrapped writer (and the emitter):
\<close>

definition discardingWriter_calls :: "call list \<Rightarrow> call list" where
  "discardingWriter_calls cs = filter (\<lambda>c. \<not> is_Write c) cs"

fun matchesPattern_loop :: "string list \<Rightarrow> string list \<Rightarrow> bool" where
  "matchesPattern_loop [] pathParts = True"
| "matchesPattern_loop (patternPart # ps) [] = False"
| "matchesPattern_loop (patternPart # ps) (pathPart # qs) =
     (if strings_HasPrefix patternPart '':'' \<or>
         (strings_HasPrefix patternPart ''{'' \<and> strings_HasSuffix patternPart ''}'')
      then (if pathPart = [] then False else matchesPattern_loop ps qs)
      else if patternPart \<noteq> pathPart then False
      else matchesPattern_loop ps qs)"

definition matchesPattern :: "string \<Rightarrow> string \<Rightarrow> bool" where
  "matchesPattern pat path =
     (let patternParts = strings_Split (strings_Trim pat CHR ''/'') CHR ''/'';
          pathParts = strings_Split (strings_Trim path CHR ''/'') CHR ''/''
      in if length patternParts \<noteq> length pathParts then False
         else matchesPattern_loop patternParts pathParts)"

text \<open>\<open>methods[method]\<close> on a \<open>map[string]bool\<close>: an absent key reads \<open>false\<close>.\<close>

definition has_method :: "(string \<times> bool) list \<Rightarrow> string \<Rightarrow> bool" where
  "has_method methods m = (map_of methods m = Some True)"

definition isMethodNotAllowed :: "Handler \<Rightarrow> request \<Rightarrow> bool" where
  "isMethodNotAllowed hn r =
     (let path = Path r; m = Method r in
      (case map_of (registeredRoutes hn) path of
         Some methods \<Rightarrow> \<not> has_method methods m
       | None \<Rightarrow> False)
      \<or> list_ex (\<lambda>registeredPath.
            matchesPattern registeredPath path \<and>
            \<not> has_method (entries_of (registeredRoutes hn) registeredPath) m)
          (keys (registeredRoutes hn)))"

definition stableAllow :: "string list \<Rightarrow> string list option" where
  "stableAllow methods =
     (let h0 = foldl (\<lambda>s m. List.insert m s) [] methods;
          h1 = (if ''GET'' \<in> set h0 then List.insert ''HEAD'' h0 else h0);
          h2 = (if length h1 > 0 then List.insert ''OPTIONS'' h1 else h1);
          (out, h3) = foldl take_ordered (Some [], h2) order;
          rest = sort h3
      in go_append out rest)"

definition allowedMethods :: "Handler \<Rightarrow> string \<Rightarrow> string list option" where
  "allowedMethods hn path =
     (case Router_MethodsFor (router hn) of
        Some mf \<Rightarrow> mf path
      | None \<Rightarrow>
          (let set0 = (case map_of (registeredRoutes hn) path of
                         Some mm \<Rightarrow> foldl (\<lambda>s m. List.insert m s) [] (keys mm)
                       | None \<Rightarrow> []);
               set1 = foldl (\<lambda>s pat.
                        if pat = path \<or> matchesPattern pat path
                        then foldl (\<lambda>s m. List.insert m s) s
                               (keys (entries_of (registeredRoutes hn) pat))
                        else s)
                      set0 (keys (registeredRoutes hn))
           in stableAllow set1))"

text \<open>
  The request a matched handler gets: the decoded query map in its context, and the
  route parameters when there are any.
\<close>

definition inject :: "Handler \<Rightarrow> handler Matched \<Rightarrow> request \<Rightarrow> request" where
  "inject hn m r =
     (let qm = queryDecoder hn (Query r);
          r1 = r\<lparr>ctxQueryMap := Some qm\<rparr>
      in if go_len (Params m) > 0 then r1\<lparr>ctxRouteParams := Params m\<rparr> else r1)"

text \<open>Lines 429 to 437 (and 375 to 381): a matched route runs under the recoverer.\<close>

definition serve_matched :: "Handler \<Rightarrow> handler Matched \<Rightarrow> request \<Rightarrow> call list \<times> anyval option" where
  "serve_matched hn m r = recoverer hn (Handler m) (inject hn m r)"

text \<open>Lines 416 to 427: no route matched.\<close>

definition serve_unmatched :: "Handler \<Rightarrow> request \<Rightarrow> call list \<times> anyval option" where
  "serve_unmatched hn r =
     (if isMethodNotAllowed hn r then
        (let allow = allowedMethods hn (Path r) in
         ((if go_len allow > 0 then [HeaderSet ''Allow'' (strings_Join (go_elems allow) '', '')]
           else [])
          @ http_Error ''Method Not Allowed'' 405, None))
      else notFound hn r)"

text \<open>
  Lines 394 to 414: the \<open>HEAD\<close> fallback, tried when nothing matched a \<open>HEAD\<close> request.
  \<open>None\<close>: the fallback does not apply and \<open>ServeHTTP\<close> goes on.
\<close>

definition head_fallback :: "Handler \<Rightarrow> request \<Rightarrow> (call list \<times> anyval option) option" where
  "head_fallback hn r =
     (let r2 = r\<lparr>Method := ''GET''\<rparr> in
      case Router_Match (router hn) r2 of
        None \<Rightarrow> None
      | Some m2 \<Rightarrow>
          (let r3 = inject hn m2 r2
           in Some (recoverer hn
                      (\<lambda>_. (case Handler m2 r3 of (cs, p) \<Rightarrow> (discardingWriter_calls cs, p)))
                      r3)))"

text \<open>
  Lines 369 to 390: the \<open>OPTIONS\<close> branch. \<open>None\<close>: no route and no allowed method,
  \<open>ServeHTTP\<close> goes on.
\<close>

definition options_branch :: "Handler \<Rightarrow> request \<Rightarrow> (call list \<times> anyval option) option" where
  "options_branch hn r =
     (case Router_Match (router hn) r of
        Some m \<Rightarrow> Some (serve_matched hn m r)
      | None \<Rightarrow>
          (let allow = allowedMethods hn (Path r) in
           if go_len allow > 0
           then Some ([HeaderSet ''Allow'' (strings_Join (go_elems allow) '', ''), WriteHeader 204],
                      None)
           else None))"

text \<open>Lines 369 to 438: \<open>ServeHTTP\<close> after the body guard.\<close>

definition route :: "Handler \<Rightarrow> request \<Rightarrow> call list \<times> anyval option" where
  "route hn r =
     (case (if Method r = ''OPTIONS'' then options_branch hn r else None) of
        Some res \<Rightarrow> res
      | None \<Rightarrow>
          (let m = Router_Match (router hn) r in
           case (if m = None \<and> Method r = ''HEAD'' then head_fallback hn r else None) of
             Some res \<Rightarrow> res
           | None \<Rightarrow>
               (case m of
                  None \<Rightarrow> serve_unmatched hn r
                | Some mv \<Rightarrow> serve_matched hn mv r)))"

text \<open>Lines 365 to 367: the reading limiter, installed when the limit is positive.\<close>

definition install_limiter :: "Handler \<Rightarrow> request \<Rightarrow> request" where
  "install_limiter hn r =
     (if bodyLimit hn > 0 then r\<lparr>Body := MaxBytesReader (Body r) (bodyLimit hn)\<rparr> else r)"

text \<open>
  \<open>ServeHTTP\<close>, as the calls made on the tracking writer and the emitter, and the panic
  that leaves it, if one does.
\<close>

definition ServeHTTP_calls :: "Handler \<Rightarrow> request \<Rightarrow> call list \<times> anyval option" where
  "ServeHTTP_calls hn r =
     (if bodyLimit hn > 0 \<and> ContentLength r > bodyLimit hn
      then (http_Error ''Request body too large'' 413, None)
      else route hn (install_limiter hn r))"

text \<open>
  \<open>ServeHTTP\<close> on a writer \<open>w\<close>: the tracking writer around \<open>w\<close> after the calls, the
  events emitted, and the panic that leaves \<open>ServeHTTP\<close>.
\<close>

definition ServeHTTP ::
  "Handler \<Rightarrow> ResponseWriter \<Rightarrow> request \<Rightarrow> trackingResponseWriter \<times> Event list \<times> anyval option" where
  "ServeHTTP hn w r =
     (let tw = newTrackingResponseWriter w;
          (cs, p) = ServeHTTP_calls hn r;
          (tw1, es) = perform_all (tw, []) cs
      in (tw1, es, p))"

text \<open>What a sequence of calls emits, and the header map it leaves.\<close>

definition emitted :: "call list \<Rightarrow> Event list" where
  "emitted cs = concat (map (\<lambda>c. case c of Emit e \<Rightarrow> [e] | _ \<Rightarrow> []) cs)"


section \<open>Concrete handlers used in the examples\<close>

definition h_ok :: handler where
  "h_ok = (\<lambda>r. ([HeaderSet ''X-A'' ''1'', WriteHeader 200, Write ''ok''], None))"

definition h_boom :: handler where
  "h_boom = (\<lambda>r. ([], Some (AString ''boom'')))"

definition h_late :: handler where
  "h_late = (\<lambda>r. ([WriteHeader 200, Write ''part''], Some (AString ''boom'')))"

definition demo_handler :: Handler where
  "demo_handler = NewHandler\<lparr>
     router := builtin (register_all
       [(''GET'', ''/a'', Some h_ok), (''POST'', ''/a'', Some h_ok),
        (''GET'', ''/boom'', Some h_boom), (''GET'', ''/late'', Some h_late),
        (''OPTIONS'', ''/opt'', Some h_ok), (''GET'', ''/u/:id'', Some h_ok)]
       NewBuiltinRouter),
     registeredRoutes :=
       [(''/a'', [(''GET'', True), (''POST'', True)]), (''/boom'', [(''GET'', True)]),
        (''/late'', [(''GET'', True)]), (''/opt'', [(''OPTIONS'', True)]),
        (''/u/:id'', [(''GET'', True)])],
     bodyLimit := 4\<rparr>"

definition w0 :: ResponseWriter where
  "w0 = \<lparr>Header = [], received = []\<rparr>"

section \<open>Properties of the router\<close>

lemma match_entries_Params: "match_entries es path = Some m \<Longrightarrow> Params m \<noteq> None"
  by (induction es) (auto split: option.splits)

text \<open>
  C10. Whenever \<open>Match\<close> returns a result (not nil), the \<open>Params\<close> map of that result is
  not nil: an exact hit carries a fresh empty map, a parameterized hit the map that
  \<open>match\<close> returned, and \<open>match\<close> returned it only because it was not nil.
\<close>

theorem Match_Params_not_nil: "Match r req = Some m \<Longrightarrow> Params m \<noteq> None"
  by (auto simp: Match_def split: option.splits dest: match_entries_Params)

theorem Match_Params_not_nil_witness:
  "Match (Register NewBuiltinRouter ''GET'' ''/u/{id}'' (Some (7::nat)))
     \<lparr>Method = ''GET'', Path = ''/u/42'', ContentLength = 0, Query = [], Body = Plain [],
      ctxQueryMap = None, ctxRouteParams = None\<rparr>
   = Some \<lparr>Handler = 7, Params = Some [(''id'', ''42'')]\<rparr>
   \<and> Params \<lparr>Handler = (7::nat), Params = Some [(''id'', ''42'')]\<rparr> \<noteq> None"
proof -
  have m: "Match (Register NewBuiltinRouter ''GET'' ''/u/{id}'' (Some (7::nat)))
     \<lparr>Method = ''GET'', Path = ''/u/42'', ContentLength = 0, Query = [], Body = Plain [],
      ctxQueryMap = None, ctxRouteParams = None\<rparr>
   = Some \<lparr>Handler = 7, Params = Some [(''id'', ''42'')]\<rparr>"
    by (simp add: Match_def Register_def NewBuiltinRouter_def hasParam_def splitPath_def
        strings_Trim_def isParamSeg_def compile_def compile_seg_def trimDelims_def
        entries_of_def exact_lookup_def match_def)
  from Match_Params_not_nil [OF m] m show ?thesis by simp
qed

lemmas router_eval =
  Match_def Register_def Unregister_def NewBuiltinRouter_def hasParam_def splitPath_def
  strings_Trim_def isParamSeg_def compile_def compile_seg_def trimDelims_def
  entries_of_def exact_lookup_def match_def

lemma match_loop_Some:
  "length sgs = length parts \<Longrightarrow>
     (match_loop sgs parts ps \<noteq> None) = list_all2 seg_accepts sgs parts"
  by (induction sgs parts ps rule: match_loop.induct) (auto simp: seg_accepts_def)

lemma match_loop_bindings:
  "match_loop sgs parts ps = Some qs \<Longrightarrow>
     map_of qs =
       foldl (\<lambda>m (sg, pp). if isParam sg then m(name sg \<mapsto> pp) else m) (map_of ps) (zip sgs parts)"
  by (induction sgs parts ps rule: match_loop.induct) (auto simp: update_conv' split: if_splits)

lemma match_Some_iff: "(match sgs path \<noteq> None) = spec_qualifies sgs (splitPath path)"
  using match_loop_Some [of sgs "splitPath path" "[]"]
  by (auto simp: match_def spec_qualifies_def Let_def dest: list_all2_lengthD)

lemma match_bindings:
  "match sgs path = Some qs \<Longrightarrow> map_of qs = spec_bindings sgs (splitPath path)"
  using match_loop_bindings [of sgs "splitPath path" "[]" qs]
  by (auto simp: match_def spec_bindings_def Let_def split: if_splits)

lemma match_entries_find:
  "match_entries es path =
     (case find (\<lambda>e. spec_qualifies (segs e) (splitPath path)) es of
        None \<Rightarrow> None
      | Some e \<Rightarrow> Some \<lparr>Handler = h e, Params = match (segs e) path\<rparr>)"
proof (induction es)
  case Nil
  show ?case by simp
next
  case (Cons e es)
  show ?case
  proof (cases "match (segs e) path")
    case None
    with match_Some_iff [of "segs e" path] Cons show ?thesis by simp
  next
    case (Some ps)
    with match_Some_iff [of "segs e" path] show ?thesis by simp
  qed
qed

text \<open>
  C1. \<open>Match\<close> looks the pair (method, path) up in the exact table and, on a hit,
  returns that handler with an empty parameter map. Without a hit it returns the first
  entry, in list (registration) order, of the method's parameterized entries that
  qualifies: as many segments as the path, every literal equal to the path segment at its
  place, every parameter on a non-empty path segment, which it binds. When no entry
  qualifies the result is nil (\<open>None\<close>), not an error. With \<open>/a/:x\<close> registered before
  \<open>/a/:y\<close> for \<open>GET\<close>, a request for \<open>/a/1\<close> gets the first handler.
\<close>

theorem Match_exact_then_first_param:
  "(exact_lookup r (Method req) (Path req) = Some hv \<longrightarrow>
      Match r req = Some \<lparr>Handler = hv, Params = Some []\<rparr>)
   \<and> (exact_lookup r (Method req) (Path req) = None \<longrightarrow>
        find (\<lambda>e. spec_qualifies (segs e) (splitPath (Path req)))
          (entries_of (param r) (Method req)) = Some e \<longrightarrow>
        (\<exists>ps. Match r req = Some \<lparr>Handler = h e, Params = Some ps\<rparr>
            \<and> map_of ps = spec_bindings (segs e) (splitPath (Path req))))
   \<and> (exact_lookup r (Method req) (Path req) = None \<longrightarrow>
        find (\<lambda>e. spec_qualifies (segs e) (splitPath (Path req)))
          (entries_of (param r) (Method req)) = None \<longrightarrow>
        Match r req = None)
   \<and> Match (Register (Register NewBuiltinRouter ''GET'' ''/a/:x'' (Some ha))
               ''GET'' ''/a/:y'' (Some hb))
        (req\<lparr>Method := ''GET'', Path := ''/a/1''\<rparr>)
      = Some \<lparr>Handler = ha, Params = Some [(''x'', ''1'')]\<rparr>"
proof (intro conjI impI)
  assume "exact_lookup r (Method req) (Path req) = Some hv"
  then show "Match r req = Some \<lparr>Handler = hv, Params = Some []\<rparr>"
    by (simp add: Match_def)
next
  assume ex: "exact_lookup r (Method req) (Path req) = None"
    and f: "find (\<lambda>e. spec_qualifies (segs e) (splitPath (Path req)))
          (entries_of (param r) (Method req)) = Some e"
  from f have "spec_qualifies (segs e) (splitPath (Path req))"
    by (auto simp: find_Some_iff)
  then obtain ps where ps: "match (segs e) (Path req) = Some ps"
    using match_Some_iff [of "segs e" "Path req"] by auto
  from ex f ps have "Match r req = Some \<lparr>Handler = h e, Params = Some ps\<rparr>"
    by (simp add: Match_def match_entries_find)
  with match_bindings [OF ps]
  show "\<exists>ps. Match r req = Some \<lparr>Handler = h e, Params = Some ps\<rparr>
            \<and> map_of ps = spec_bindings (segs e) (splitPath (Path req))"
    by blast
next
  assume "exact_lookup r (Method req) (Path req) = None"
    and "find (\<lambda>e. spec_qualifies (segs e) (splitPath (Path req)))
          (entries_of (param r) (Method req)) = None"
  then show "Match r req = None"
    by (simp add: Match_def match_entries_find)
next
  show "Match (Register (Register NewBuiltinRouter ''GET'' ''/a/:x'' (Some ha))
               ''GET'' ''/a/:y'' (Some hb))
        (req\<lparr>Method := ''GET'', Path := ''/a/1''\<rparr>)
      = Some \<lparr>Handler = ha, Params = Some [(''x'', ''1'')]\<rparr>"
    by (simp add: router_eval)
qed

lemma demo_exact_users: "exact_lookup demo_router ''GET'' ''/users'' = Some 1"
  by (simp add: demo_router_def router_eval)

lemma demo_exact_none:
  "exact_lookup demo_router ''GET'' ''/users/new'' = None"
  "exact_lookup demo_router ''GET'' ''/x/y/z'' = None"
  by (simp_all add: demo_router_def router_eval)

lemma demo_find_users_new:
  "find (\<lambda>e. spec_qualifies (segs e) (splitPath ''/users/new''))
     (entries_of (param demo_router) ''GET'')
   = Some \<lparr>pattern = ''/users/:id'', segs = compile ''/users/:id'', h = 2\<rparr>"
  by (simp add: demo_router_def router_eval spec_qualifies_def seg_accepts_def)

lemma demo_find_none:
  "find (\<lambda>e. spec_qualifies (segs e) (splitPath ''/x/y/z''))
     (entries_of (param demo_router) ''GET'') = None"
  by (simp add: demo_router_def router_eval spec_qualifies_def seg_accepts_def)

theorem Match_exact_then_first_param_witness:
  "(exact_lookup demo_router ''GET'' ''/users'' = Some 1
      \<and> Match demo_router (req0\<lparr>Path := ''/users''\<rparr>) = Some \<lparr>Handler = 1, Params = Some []\<rparr>)
   \<and> (exact_lookup demo_router ''GET'' ''/users/new'' = None
      \<and> find (\<lambda>e. spec_qualifies (segs e) (splitPath ''/users/new''))
           (entries_of (param demo_router) ''GET'')
         = Some \<lparr>pattern = ''/users/:id'', segs = compile ''/users/:id'', h = 2\<rparr>
      \<and> (\<exists>ps. Match demo_router (req0\<lparr>Path := ''/users/new''\<rparr>)
                 = Some \<lparr>Handler = 2, Params = Some ps\<rparr>
             \<and> map_of ps ''id'' = Some ''new''))
   \<and> (exact_lookup demo_router ''GET'' ''/x/y/z'' = None
      \<and> find (\<lambda>e. spec_qualifies (segs e) (splitPath ''/x/y/z''))
           (entries_of (param demo_router) ''GET'') = None
      \<and> Match demo_router (req0\<lparr>Path := ''/x/y/z''\<rparr>) = None)"
proof -
  let ?qa = "req0\<lparr>Path := ''/users''\<rparr>"
  let ?qb = "req0\<lparr>Path := ''/users/new''\<rparr>"
  let ?qc = "req0\<lparr>Path := ''/x/y/z''\<rparr>"
  let ?e = "\<lparr>pattern = ''/users/:id'', segs = compile ''/users/:id'', h = 2::nat\<rparr>"
  have ea: "exact_lookup demo_router (Method ?qa) (Path ?qa) = Some 1"
    using demo_exact_users by (simp add: req0_def)
  have eb: "exact_lookup demo_router (Method ?qb) (Path ?qb) = None"
    using demo_exact_none(1) by (simp add: req0_def)
  have fb: "find (\<lambda>e. spec_qualifies (segs e) (splitPath (Path ?qb)))
              (entries_of (param demo_router) (Method ?qb)) = Some ?e"
    using demo_find_users_new by (simp add: req0_def)
  have ec: "exact_lookup demo_router (Method ?qc) (Path ?qc) = None"
    using demo_exact_none(2) by (simp add: req0_def)
  have fc: "find (\<lambda>e. spec_qualifies (segs e) (splitPath (Path ?qc)))
              (entries_of (param demo_router) (Method ?qc)) = None"
    using demo_find_none by (simp add: req0_def)
  have a: "Match demo_router ?qa = Some \<lparr>Handler = 1, Params = Some []\<rparr>"
    using Match_exact_then_first_param
        [where r = demo_router and req = ?qa and hv = 1 and ha = 0 and hb = 0] ea
    by blast
  have "\<exists>ps. Match demo_router ?qb = Some \<lparr>Handler = h ?e, Params = Some ps\<rparr>
             \<and> map_of ps = spec_bindings (segs ?e) (splitPath (Path ?qb))"
    using Match_exact_then_first_param
        [where r = demo_router and req = ?qb and ha = 0 and hb = 0 and e = ?e] eb fb
    by blast
  moreover have "spec_bindings (segs ?e) (splitPath (Path ?qb)) ''id'' = Some ''new''"
    by (simp add: spec_bindings_def router_eval req0_def)
  ultimately have b: "\<exists>ps. Match demo_router ?qb = Some \<lparr>Handler = 2, Params = Some ps\<rparr>
             \<and> map_of ps ''id'' = Some ''new''"
    by auto
  have c: "Match demo_router ?qc = None"
    using Match_exact_then_first_param
        [where r = demo_router and req = ?qc and ha = 0 and hb = 0] ec fc
    by blast
  from a b c demo_exact_users demo_exact_none demo_find_users_new demo_find_none
  show ?thesis by blast
qed

section \<open>Register and Unregister\<close>

lemma twice_entries:
  "entries_of (param twice_router) ''GET'' =
     [\<lparr>pattern = ''/a/:x'', segs = compile ''/a/:x'', h = 1\<rparr>,
      \<lparr>pattern = ''/a/:x'', segs = compile ''/a/:x'', h = 2\<rparr>]"
  by (simp add: twice_router_def Register_def NewBuiltinRouter_def hasParam_def splitPath_def
        strings_Trim_def isParamSeg_def entries_of_def)

lemma hasParam_a_x: "hasParam ''/a/:x''"
  by (simp add: hasParam_def splitPath_def strings_Trim_def isParamSeg_def)

lemma Register_param_entries:
  assumes "method \<noteq> []" "pat \<noteq> []" "hasParam pat"
  shows "entries_of (param (Register r method pat (Some hv))) m =
       (if m = method
        then entries_of (param r) method @ [\<lparr>pattern = pat, segs = compile pat, h = hv\<rparr>]
        else entries_of (param r) m)"
    and "exact (Register r method pat (Some hv)) = exact r"
  using assms by (simp_all add: Register_def entries_of_def update_conv')

text \<open>
  C3, as the code has it. The claim says that \<open>Register\<close> replaces the handler of an
  entry with the same pattern string where it stands, so that a pattern string occurs at
  most once per method. The code has no such search: after registering \<open>/a/:x\<close> twice for
  \<open>GET\<close> the list holds two entries with that pattern, the first still with the first
  handler.
\<close>

theorem Register_replaces_in_place_counterexample:
  "\<not> distinct (map pattern (entries_of (param twice_router) ''GET''))
   \<and> entries_of (param twice_router) ''GET''
       \<noteq> spec_register_entries
            (entries_of (param (Register NewBuiltinRouter ''GET'' ''/a/:x'' (Some 1))) ''GET'')
            ''/a/:x'' 2"
  unfolding twice_entries
  by (simp add: spec_register_entries_def Register_def NewBuiltinRouter_def hasParam_def
        splitPath_def strings_Trim_def isParamSeg_def entries_of_def)

text \<open>
  C3, amended. For a non-empty method, a non-empty pattern with a parameter segment and
  a handler that is not nil, \<open>Register\<close> appends a new entry at the end of that method's
  list, whether or not the pattern string is already there; the entries already in the
  list, the lists of the other methods and the exact table stay as they were.
\<close>

theorem Register_param_always_appends:
  "method \<noteq> [] \<Longrightarrow> pat \<noteq> [] \<Longrightarrow> hasParam pat \<Longrightarrow>
     entries_of (param (Register r method pat (Some hv))) m =
       (if m = method
        then entries_of (param r) method @ [\<lparr>pattern = pat, segs = compile pat, h = hv\<rparr>]
        else entries_of (param r) m)
     \<and> exact (Register r method pat (Some hv)) = exact r"
  by (simp add: Register_param_entries)

theorem Register_param_always_appends_witness:
  "''GET'' \<noteq> [] \<and> ''/a/:x'' \<noteq> [] \<and> hasParam ''/a/:x''
   \<and> entries_of (param (Register (Register NewBuiltinRouter ''GET'' ''/a/:x'' (Some (1::nat)))
         ''GET'' ''/a/:x'' (Some 2))) ''GET''
     = entries_of (param (Register NewBuiltinRouter ''GET'' ''/a/:x'' (Some 1))) ''GET''
         @ [\<lparr>pattern = ''/a/:x'', segs = compile ''/a/:x'', h = 2\<rparr>]"
  using Register_param_always_appends
    [of "''GET''" "''/a/:x''" "Register NewBuiltinRouter ''GET'' ''/a/:x'' (Some 1)"
       "2::nat" "''GET''"]
    hasParam_a_x
  by simp

lemma Unregister_exact_lookup:
  "exact_lookup (Unregister r method pat) m p =
     (if m = method \<and> p = pat then None else exact_lookup r m p)"
  by (auto simp: Unregister_def exact_lookup_def Let_def update_conv' delete_conv'
      split: option.splits)

lemma Unregister_entries:
  "entries_of (param (Unregister r method pat)) m =
     (if m = method then filter (\<lambda>e. pattern e \<noteq> pat) (entries_of (param r) method)
      else entries_of (param r) m)"
  by (auto simp: Unregister_def entries_of_def Let_def update_conv' delete_conv'
      split: option.splits)

lemma Unregister_absent:
  assumes "exact_lookup r method pat = None"
    and "\<forall>e \<in> set (entries_of (param r) method). pattern e \<noteq> pat"
  shows "Unregister r method pat = r"
proof -
  have ex: "(case map_of (exact r) method of
                  None \<Rightarrow> r
                | Some mm \<Rightarrow> r\<lparr>exact := AList.update method (AList.delete pat mm) (exact r)\<rparr>) = r"
  proof (cases "map_of (exact r) method")
    case None
    then show ?thesis by simp
  next
    case (Some mm)
    with assms(1) have "map_of mm pat = None" by (simp add: exact_lookup_def)
    then have "pat \<notin> fst ` set mm" by (simp add: map_of_eq_None_iff)
    then have "AList.delete pat mm = mm" by simp
    with Some show ?thesis by (simp add: update_triv)
  qed
  have f: "filter (\<lambda>e. pattern e \<noteq> pat) (entries_of (param r) method) = entries_of (param r) method"
    using assms(2) by (simp add: filter_id_conv)
  show ?thesis
  proof (cases "map_of (param r) method")
    case None
    then show ?thesis using ex by (simp add: Unregister_def entries_of_def)
  next
    case (Some es)
    then have "entries_of (param r) method = es" by (simp add: entries_of_def)
    with f Some show ?thesis using ex
      by (cases es) (simp_all add: Unregister_def Let_def update_triv)
  qed
qed

text \<open>
  C9, as the code has it. The claim says that \<open>Unregister\<close> removes the first
  parameterized entry with the pattern string and leaves every other entry. The loop of
  the code keeps exactly the entries whose pattern differs, so with \<open>/a/:x\<close> registered
  twice one \<open>Unregister\<close> empties the list, where removing the first entry would leave
  the second.
\<close>

theorem Unregister_removes_first_counterexample:
  "entries_of (param (Unregister twice_router ''GET'' ''/a/:x'')) ''GET'' = []
   \<and> spec_remove_first ''/a/:x'' (entries_of (param twice_router) ''GET'')
       = [\<lparr>pattern = ''/a/:x'', segs = compile ''/a/:x'', h = 2\<rparr>]"
  by (simp add: spec_remove_first_def twice_entries Unregister_def)
    (simp add: twice_router_def Register_def NewBuiltinRouter_def hasParam_def splitPath_def
        strings_Trim_def isParamSeg_def entries_of_def)

text \<open>
  C9, amended. \<open>Unregister\<close> removes the pair (method, pattern) from the exact table
  and removes every parameterized entry of the method whose pattern string equals the
  argument; every other exact route and every other entry stays, the entries in their
  order. When the pair is in neither table, the router is unchanged (and no error is
  returned: the model of \<open>Unregister\<close> has no error result, as the source always returns
  nil).
\<close>

theorem Unregister_removes_every_equal_entry:
  "exact_lookup (Unregister r method pat) m p =
     (if m = method \<and> p = pat then None else exact_lookup r m p)
   \<and> entries_of (param (Unregister r method pat)) m =
       (if m = method then filter (\<lambda>e. pattern e \<noteq> pat) (entries_of (param r) method)
        else entries_of (param r) m)
   \<and> (exact_lookup r method pat = None \<longrightarrow>
        (\<forall>e \<in> set (entries_of (param r) method). pattern e \<noteq> pat) \<longrightarrow>
        Unregister r method pat = r)"
  by (simp add: Unregister_exact_lookup Unregister_entries Unregister_absent)

theorem Unregister_removes_every_equal_entry_witness:
  "exact_lookup demo_router ''GET'' ''/users/new'' = None
   \<and> map pattern (entries_of (param demo_router) ''GET'') = [''/users/:id'', ''/{kind}/new'']
   \<and> Unregister demo_router ''GET'' ''/users/new'' = demo_router
   \<and> entries_of (param (Unregister demo_router ''GET'' ''/users/:id'')) ''GET''
       = [\<lparr>pattern = ''/{kind}/new'', segs = compile ''/{kind}/new'', h = 3\<rparr>]
   \<and> exact_lookup (Unregister demo_router ''GET'' ''/users'') ''GET'' ''/users'' = None"
proof -
  have a: "\<forall>e \<in> set (entries_of (param demo_router) ''GET''). pattern e \<noteq> ''/users/new''"
    by (simp add: demo_router_def router_eval)
  have b: "filter (\<lambda>e. pattern e \<noteq> ''/users/:id'') (entries_of (param demo_router) ''GET'')
       = [\<lparr>pattern = ''/{kind}/new'', segs = compile ''/{kind}/new'', h = 3\<rparr>]"
    by (simp add: demo_router_def Register_def NewBuiltinRouter_def hasParam_def splitPath_def
        strings_Trim_def isParamSeg_def entries_of_def)
  have c: "map pattern (entries_of (param demo_router) ''GET'') = [''/users/:id'', ''/{kind}/new'']"
    by (simp add: demo_router_def Register_def NewBuiltinRouter_def hasParam_def splitPath_def
        strings_Trim_def isParamSeg_def entries_of_def)
  from Unregister_removes_every_equal_entry
         [of demo_router "''GET''" "''/users/new''"]
       Unregister_removes_every_equal_entry
         [of demo_router "''GET''" "''/users/:id''" "''GET''"]
       Unregister_removes_every_equal_entry
         [of demo_router "''GET''" "''/users''" "''GET''" "''/users''"]
       a b c demo_exact_none(1)
  show ?thesis by simp
qed

section \<open>MethodsFor\<close>

lemma keys_iff: "m \<in> set (keys al) \<longleftrightarrow> map_of al m \<noteq> None"
  by (simp add: keys_def map_of_eq_None_iff)

lemma distinct_keys: "distinct (keys al)"
  by (simp add: keys_def)

lemma matchSegments_Some_iff:
  "(matchSegments sgs path \<noteq> None) = spec_qualifies sgs (splitPath path)"
  using match_Some_iff [of sgs path] by (simp add: matchSegments_def match_def)

lemma foldl_insert_if:
  "set (foldl (\<lambda>s m. if P m then List.insert m s else s) s0 ms) = set s0 \<union> {m \<in> set ms. P m}"
  by (induction ms arbitrary: s0) auto

lemma foldl_insert_if_distinct:
  "distinct s0 \<Longrightarrow> distinct (foldl (\<lambda>s m. if P m then List.insert m s else s) s0 ms)"
  by (induction ms arbitrary: s0) auto

lemma foldl_insert_same:
  "foldl (\<lambda>s e. if Q e then List.insert m s else s) s es =
     (if \<exists>e \<in> set es. Q e then List.insert m s else s)"
  by (induction es arbitrary: s) auto

lemma exact_step_eq:
  "(\<lambda>s m. case map_of (exact r) m of
             None \<Rightarrow> s
           | Some table \<Rightarrow> if map_of table path \<noteq> None then List.insert m s else s)
   = (\<lambda>s m. if exact_lookup r m path \<noteq> None then List.insert m s else s)"
  by (intro ext) (simp add: exact_lookup_def split: option.splits)

lemma entries_of_key: "e \<in> set (entries_of al m) \<Longrightarrow> m \<in> set (keys al)"
  by (cases "map_of al m") (simp_all add: entries_of_def keys_iff)

lemma exact_lookup_key: "exact_lookup r m p \<noteq> None \<Longrightarrow> m \<in> set (keys (exact r))"
  by (auto simp: exact_lookup_def keys_iff split: option.splits)

lemma spec_matched_iff:
  "m \<in> spec_matched r path \<longleftrightarrow>
     exact_lookup r m path \<noteq> None \<or>
     (\<exists>e \<in> set (entries_of (param r) m). spec_qualifies (segs e) (splitPath path))"
  unfolding spec_matched_def using entries_of_key exact_lookup_key by fastforce

lemma take_ordered_fold:
  "distinct ms \<Longrightarrow>
     foldl take_ordered (Some out, s) ms =
       (Some (out @ filter (\<lambda>m. m \<in> set s) ms), filter (\<lambda>m. m \<notin> set ms) s)"
proof (induction ms arbitrary: out s)
  case Nil
  show ?case by simp
next
  case (Cons m ms)
  then have d: "distinct ms" and nm: "m \<notin> set ms" by simp_all
  show ?case
  proof (cases "m \<in> set s")
    case True
    have f1: "filter (\<lambda>x. x \<in> set (removeAll m s)) ms = filter (\<lambda>x. x \<in> set s) ms"
      using nm by (intro filter_cong) auto
    have f2: "filter (\<lambda>x. x \<notin> set ms) (removeAll m s) = filter (\<lambda>x. x \<notin> set (m # ms)) s"
      by (induction s) auto
    from True have "foldl take_ordered (Some out, s) (m # ms) =
        foldl take_ordered (Some (out @ [m]), removeAll m s) ms"
      by (simp add: take_ordered_def go_append_def)
    also have "\<dots> = (Some ((out @ [m]) @ filter (\<lambda>x. x \<in> set (removeAll m s)) ms),
                      filter (\<lambda>x. x \<notin> set ms) (removeAll m s))"
      by (rule Cons.IH [OF d])
    finally show ?thesis using True f1 f2 by simp
  next
    case False
    then have "foldl take_ordered (Some out, s) (m # ms) = foldl take_ordered (Some out, s) ms"
      by (simp add: take_ordered_def)
    also have "\<dots> = (Some (out @ filter (\<lambda>x. x \<in> set s) ms), filter (\<lambda>x. x \<notin> set ms) s)"
      by (rule Cons.IH [OF d])
    finally show ?thesis using False
      by (auto intro: filter_cong)
  qed
qed

lemma distinct_order: "distinct order"
  by (simp add: order_def)

lemma sort_distinct_eq: "distinct (xs :: string list) \<Longrightarrow> sort xs = sorted_list_of_set (set xs)"
  by (simp add: sorted_list_of_set_sort_remdups distinct_remdups_id)

lemma MethodsFor_char:
  "MethodsFor r path = Some (spec_ordered (spec_allow (spec_matched r path)))"
proof -
  define set0 where "set0 = foldl (\<lambda>s m. if exact_lookup r m path \<noteq> None then List.insert m s else s)
                   [] (keys (exact r))"
  define set1 where "set1 = foldl (\<lambda>s m. if (\<exists>e \<in> set (entries_of (param r) m).
                                  matchSegments (segs e) path \<noteq> None)
                              then List.insert m s else s)
                   set0 (keys (param r))"
  define set2 where "set2 = (if ''GET'' \<in> set set1 then List.insert ''HEAD'' set1 else set1)"
  define set3 where "set3 = (if length set2 > 0 then List.insert ''OPTIONS'' set2 else set2)"
  have d0: "distinct set0" unfolding set0_def by (rule foldl_insert_if_distinct) simp
  have d1: "distinct set1" unfolding set1_def by (rule foldl_insert_if_distinct) (rule d0)
  have d3: "distinct set3" using d1 by (simp add: set3_def set2_def)
  have "set set1 = {m \<in> set (keys (exact r)). exact_lookup r m path \<noteq> None}
      \<union> {m \<in> set (keys (param r)).
           \<exists>e \<in> set (entries_of (param r) m). spec_qualifies (segs e) (splitPath path)}"
    unfolding set1_def set0_def foldl_insert_if matchSegments_Some_iff by simp
  also have "\<dots> = spec_matched r path"
    unfolding spec_matched_def using entries_of_key exact_lookup_key by fastforce
  finally have s1: "set set1 = spec_matched r path" .
  have s2: "set set2 = spec_matched r path \<union> (if ''GET'' \<in> spec_matched r path then {''HEAD''} else {})"
    by (simp add: set2_def s1)
  have ne: "(length set2 > 0) = (spec_matched r path \<noteq> {})"
    using s2 by (cases set2) (auto split: if_splits)
  have s3: "set set3 = spec_allow (spec_matched r path)"
    unfolding set3_def ne by (auto simp: s2 spec_allow_def)
  have unfold: "MethodsFor r path =
      (case foldl take_ordered (Some [], set3) order of (out, set4) \<Rightarrow> go_append out (sort set4))"
    by (simp add: MethodsFor_def exact_step_eq foldl_insert_same set0_def set1_def set2_def
        set3_def Let_def)
  have "sort (filter (\<lambda>m. m \<notin> set order) set3) =
          sorted_list_of_set (spec_allow (spec_matched r path) - set order)"
    using d3 s3 by (subst sort_distinct_eq) (auto simp: set_diff_eq)
  then show ?thesis
    unfolding unfold take_ordered_fold [OF distinct_order]
    by (simp add: go_append_def spec_ordered_def s3)
qed

lemma Register_exact_lookup:
  "exact_lookup (Register r m p ho) m' p' =
     (if ho \<noteq> None \<and> m \<noteq> [] \<and> p \<noteq> [] \<and> \<not> hasParam p \<and> m' = m \<and> p' = p then ho
      else exact_lookup r m' p')"
  by (auto simp: Register_def exact_lookup_def update_conv' Let_def split: option.splits)

lemma Register_entries:
  "entries_of (param (Register r m p ho)) m' =
     (case ho of
        None \<Rightarrow> entries_of (param r) m'
      | Some hv \<Rightarrow>
          if m \<noteq> [] \<and> p \<noteq> [] \<and> hasParam p \<and> m' = m
          then entries_of (param r) m @ [\<lparr>pattern = p, segs = compile p, h = hv\<rparr>]
          else entries_of (param r) m')"
  by (auto simp: Register_def entries_of_def update_conv' Let_def split: option.splits)

lemma spec_matched_Register:
  "spec_matched (Register r m p ho) path =
     spec_matched r path \<union>
       (if ho \<noteq> None \<and> m \<noteq> [] \<and> p \<noteq> [] \<and> spec_route_matches p path then {m} else {})"
  by (rule set_eqI)
    (auto simp: spec_matched_iff Register_exact_lookup Register_entries spec_route_matches_def
      split: option.splits if_splits)

lemma spec_matched_register_all:
  "spec_matched (register_all regs r) path =
     spec_matched r path \<union>
       {m. \<exists>p hv. (m, p, Some hv) \<in> set regs \<and> m \<noteq> [] \<and> p \<noteq> [] \<and> spec_route_matches p path}"
proof (induction regs arbitrary: r)
  case Nil
  show ?case by (simp add: register_all_def)
next
  case (Cons x regs)
  obtain m p ho where x: "x = (m, p, ho)" by (cases x)
  have step: "register_all (x # regs) r = register_all regs (Register r m p ho)"
    by (simp add: register_all_def x)
  have "spec_matched (register_all (x # regs) r) path =
      (spec_matched r path \<union>
         (if ho \<noteq> None \<and> m \<noteq> [] \<and> p \<noteq> [] \<and> spec_route_matches p path then {m} else {})) \<union>
       {m. \<exists>p hv. (m, p, Some hv) \<in> set regs \<and> m \<noteq> [] \<and> p \<noteq> [] \<and> spec_route_matches p path}"
    unfolding step Cons.IH [of "Register r m p ho"] spec_matched_Register ..
  also have "\<dots> = spec_matched r path \<union>
       {m'. \<exists>p' hv. (m', p', Some hv) \<in> set (x # regs) \<and> m' \<noteq> [] \<and> p' \<noteq> []
             \<and> spec_route_matches p' path}"
    unfolding x by (cases ho) auto
  finally show ?case .
qed

lemma MethodsFor_register_all_set:
  assumes "set regs1 = set regs2"
  shows "MethodsFor (register_all regs1 r) path = MethodsFor (register_all regs2 r) path"
  unfolding MethodsFor_char spec_matched_register_all assms ..


text \<open>
  C2. \<open>MethodsFor\<close> returns the methods with an exact or parameterized route matching the
  path, with \<open>HEAD\<close> added when \<open>GET\<close> is among them and \<open>OPTIONS\<close> when there is any,
  in the order \<open>OPTIONS, GET, HEAD, POST, PUT, PATCH, DELETE\<close> (those present) followed
  by the other methods in lexicographic order. The result depends only on which routes
  were registered, not on the order of the \<open>Register\<close> calls: \<open>GET\<close> and \<open>POST\<close> on \<open>/x\<close>
  give \<open>OPTIONS, GET, HEAD, POST\<close> in either order. With no matching method the result is
  the empty slice, which is not nil.
\<close>

theorem MethodsFor_deterministic_allow_list:
  "MethodsFor r path = Some (spec_ordered (spec_allow (spec_matched r path)))
   \<and> (set regs1 = set regs2 \<longrightarrow>
        MethodsFor (register_all regs1 NewBuiltinRouter) path =
        MethodsFor (register_all regs2 NewBuiltinRouter) path)
   \<and> MethodsFor (register_all [(''GET'', ''/x'', Some ha), (''POST'', ''/x'', Some hb)]
        NewBuiltinRouter) ''/x'' = Some [''OPTIONS'', ''GET'', ''HEAD'', ''POST'']
   \<and> MethodsFor (register_all [(''POST'', ''/x'', Some hb), (''GET'', ''/x'', Some ha)]
        NewBuiltinRouter) ''/x'' = Some [''OPTIONS'', ''GET'', ''HEAD'', ''POST'']
   \<and> (spec_matched r path = {} \<longrightarrow> MethodsFor r path = Some [])"
proof (intro conjI impI)
  show "MethodsFor r path = Some (spec_ordered (spec_allow (spec_matched r path)))"
    by (rule MethodsFor_char)
next
  assume "set regs1 = set regs2"
  then show "MethodsFor (register_all regs1 NewBuiltinRouter) path =
        MethodsFor (register_all regs2 NewBuiltinRouter) path"
    by (rule MethodsFor_register_all_set)
next
  show "MethodsFor (register_all [(''GET'', ''/x'', Some ha), (''POST'', ''/x'', Some hb)]
        NewBuiltinRouter) ''/x'' = Some [''OPTIONS'', ''GET'', ''HEAD'', ''POST'']"
    by code_simp
next
  show "MethodsFor (register_all [(''POST'', ''/x'', Some hb), (''GET'', ''/x'', Some ha)]
        NewBuiltinRouter) ''/x'' = Some [''OPTIONS'', ''GET'', ''HEAD'', ''POST'']"
    by code_simp
next
  assume "spec_matched r path = {}"
  then show "MethodsFor r path = Some []"
    by (simp add: MethodsFor_char spec_allow_def spec_ordered_def)
qed

lemma demo_no_method: "spec_matched demo_router ''/missing/a/b'' = {}"
  unfolding set_eq_iff
  by (auto simp: spec_matched_iff demo_router_def router_eval spec_qualifies_def seg_accepts_def)

theorem MethodsFor_deterministic_allow_list_witness:
  "set [(''GET'', ''/x'', Some (1::nat)), (''POST'', ''/x'', Some 2)]
     = set [(''POST'', ''/x'', Some (2::nat)), (''GET'', ''/x'', Some 1)]
   \<and> MethodsFor (register_all [(''GET'', ''/x'', Some (1::nat)), (''POST'', ''/x'', Some 2)]
          NewBuiltinRouter) ''/x''
     = MethodsFor (register_all [(''POST'', ''/x'', Some (2::nat)), (''GET'', ''/x'', Some 1)]
          NewBuiltinRouter) ''/x''
   \<and> spec_matched demo_router ''/missing/a/b'' = {}
   \<and> MethodsFor demo_router ''/missing/a/b'' = Some []"
proof -
  let ?ra = "[(''GET'', ''/x'', Some (1::nat)), (''POST'', ''/x'', Some 2)]"
  let ?rb = "[(''POST'', ''/x'', Some (2::nat)), (''GET'', ''/x'', Some 1)]"
  have s: "set ?ra = set ?rb"
    by (simp add: insert_commute)
  have a: "set ?ra = set ?rb \<longrightarrow>
        MethodsFor (register_all ?ra NewBuiltinRouter) ''/x'' =
        MethodsFor (register_all ?rb NewBuiltinRouter) ''/x''"
    using MethodsFor_deterministic_allow_list
         [of "NewBuiltinRouter :: nat BuiltinRouter" "''/x''" ?ra ?rb 0 0]
    by (elim conjE)
  have b: "spec_matched demo_router ''/missing/a/b'' = {} \<longrightarrow>
        MethodsFor demo_router ''/missing/a/b'' = Some []"
    using MethodsFor_deterministic_allow_list
         [of demo_router "''/missing/a/b''" ?ra ?rb 0 0]
    by (elim conjE)
  from a s have a': "MethodsFor (register_all ?ra NewBuiltinRouter) ''/x'' =
        MethodsFor (register_all ?rb NewBuiltinRouter) ''/x''" by (rule mp)
  from b demo_no_method have b': "MethodsFor demo_router ''/missing/a/b'' = Some []" by (rule mp)
  show ?thesis
    by (intro conjI s a' demo_no_method b')
qed

section \<open>The tracking response writer\<close>

lemma perform_all_Nil [simp]: "perform_all st [] = st"
  by (simp add: perform_all_def)

lemma perform_all_Cons [simp]: "perform_all st (c # cs) = perform_all (perform st c) cs"
  by (simp add: perform_all_def)

lemma perform_all_append: "perform_all st (cs @ ds) = perform_all (perform_all st cs) ds"
  by (simp add: perform_all_def)

lemma received_after_header:
  "wroteHeader w \<Longrightarrow>
     received (inner (fst (perform_all (w, es) cs))) = received (inner w) @ filter is_Write cs
     \<and> wroteHeader (fst (perform_all (w, es) cs))"
proof (induction cs arbitrary: w es)
  case Nil
  then show ?case by simp
next
  case (Cons c cs)
  then show ?case
    by (cases c)
      (simp_all add: trackingResponseWriter_WriteHeader_def trackingResponseWriter_Write_def
        Let_def)
qed

lemma received_fresh:
  "\<not> wroteHeader w \<Longrightarrow>
     received (inner (fst (perform_all (w, es) cs))) =
       received (inner w) @ spec_status cs @ filter is_Write cs"
proof (induction cs arbitrary: w es)
  case Nil
  then show ?case by simp
next
  case (Cons c cs)
  show ?case
  proof (cases c)
    case (HeaderSet k v)
    with Cons show ?thesis by simp
  next
    case (HeaderDel k)
    with Cons show ?thesis by simp
  next
    case (WriteHeader code)
    let ?w = "trackingResponseWriter_WriteHeader w code"
    from Cons.prems have "wroteHeader ?w"
      and "received (inner ?w) = received (inner w) @ [WriteHeader code]"
      by (simp_all add: trackingResponseWriter_WriteHeader_def)
    with received_after_header [of ?w es cs] WriteHeader show ?thesis
      by simp
  next
    case (Write d)
    let ?w = "trackingResponseWriter_Write w d"
    from Cons.prems have "wroteHeader ?w"
      and "received (inner ?w) = received (inner w) @ [WriteHeader 200, Write d]"
      by (simp_all add: trackingResponseWriter_WriteHeader_def trackingResponseWriter_Write_def
          Let_def)
    with received_after_header [of ?w es cs] Write show ?thesis
      by simp
  next
    case (Emit e)
    with Cons show ?thesis by simp
  qed
qed

lemma status_codes_append: "status_codes (cs @ ds) = status_codes cs @ status_codes ds"
  by (simp add: status_codes_def)

lemma status_codes_writes: "status_codes (filter is_Write cs) = []"
  by (induction cs) (auto simp: status_codes_def elim: is_Write.elims)

lemma status_codes_spec_status: "length (status_codes (spec_status cs)) \<le> 1"
  by (induction cs rule: spec_status.induct) (simp_all add: status_codes_def)

text \<open>
  C6. Whatever calls are made on a fresh tracking writer, the writer below it receives
  at most one \<open>WriteHeader\<close>: that of the first \<open>WriteHeader\<close> call, or \<open>WriteHeader(200)\<close>
  placed before the first \<open>Write\<close> when no status was set before it. Every later
  \<open>WriteHeader\<close> call is dropped: after the single status, only the \<open>Write\<close> calls reach
  the writer below, so a later \<open>500\<close> after a status and a body is never passed on.
\<close>

theorem tracking_writer_forwards_one_status:
  "received (inner (fst (perform_all (newTrackingResponseWriter w0, es) cs))) =
     received w0 @ spec_status cs @ filter is_Write cs
   \<and> length (status_codes (spec_status cs @ filter is_Write cs)) \<le> 1
   \<and> status_codes (received (inner (fst (perform_all
          (newTrackingResponseWriter \<lparr>Header = [], received = []\<rparr>, [])
          [WriteHeader 201, Write ''ab'', WriteHeader 500])))) = [201]"
proof (intro conjI)
  show "received (inner (fst (perform_all (newTrackingResponseWriter w0, es) cs))) =
     received w0 @ spec_status cs @ filter is_Write cs"
    using received_fresh [of "newTrackingResponseWriter w0" es cs]
    by (simp add: newTrackingResponseWriter_def)
  show "length (status_codes (spec_status cs @ filter is_Write cs)) \<le> 1"
    using status_codes_spec_status [of cs]
    by (simp add: status_codes_append status_codes_writes)
  show "status_codes (received (inner (fst (perform_all
          (newTrackingResponseWriter \<lparr>Header = [], received = []\<rparr>, [])
          [WriteHeader 201, Write ''ab'', WriteHeader 500])))) = [201]"
    by (simp add: newTrackingResponseWriter_def trackingResponseWriter_WriteHeader_def
        trackingResponseWriter_Write_def status_codes_def Let_def)
qed

section \<open>Properties of ServeHTTP: the body guard\<close>

lemma snd_perform [simp]: "snd (perform (w, es) c) = es @ emitted [c]"
  by (cases c) (simp_all add: emitted_def)

lemma emitted_Cons: "emitted (c # cs) = emitted [c] @ emitted cs"
  by (simp add: emitted_def)

lemma events_perform_all: "snd (perform_all (w, es) cs) = es @ emitted cs"
proof (induction cs arbitrary: w es)
  case Nil
  show ?case by (simp add: emitted_def)
next
  case (Cons c cs)
  obtain w1 es1 where p: "perform (w, es) c = (w1, es1)" by (cases "perform (w, es) c")
  then have "es1 = es @ emitted [c]" using snd_perform [of w es c] by simp
  with Cons [of w1 es1] p show ?case by (simp add: emitted_Cons [of c cs])
qed



lemma spec_status_append:
  "spec_status (cs @ ds) = (if spec_status cs = [] then spec_status ds else spec_status cs)"
  by (induction cs rule: spec_status.induct) simp_all

lemma spec_status_no_Write:
  "status_codes (spec_status (filter (\<lambda>c. \<not> is_Write c) cs)) = take 1 (status_codes cs)"
proof (induction cs)
  case Nil
  show ?case by (simp add: status_codes_def)
next
  case (Cons c cs)
  then show ?case by (cases c) (simp_all add: status_codes_def)
qed


lemma body_bytes_spec_status: "body_bytes (spec_status cs) = []"
  by (induction cs rule: spec_status.induct) (simp_all add: body_bytes_def)

lemma filter_Write_no_Write: "filter is_Write (filter (\<lambda>c. \<not> is_Write c) cs) = []"
  by (induction cs) simp_all


lemma ServeHTTP_parts:
  assumes "ServeHTTP_calls hn r = (cs, p)"
  shows "fst (ServeHTTP hn w r) = fst (perform_all (newTrackingResponseWriter w, []) cs)"
    and "fst (snd (ServeHTTP hn w r)) = emitted cs"
    and "snd (snd (ServeHTTP hn w r)) = p"
  using assms events_perform_all [of "newTrackingResponseWriter w" "[]" cs]
  by (simp_all add: ServeHTTP_def Let_def case_prod_beta)

lemma ServeHTTP_received:
  assumes "ServeHTTP_calls hn r = (cs, p)"
  shows "received (inner (fst (ServeHTTP hn w r))) =
           received w @ spec_status cs @ filter is_Write cs"
  using received_fresh [of "newTrackingResponseWriter w" "[]" cs] ServeHTTP_parts(1) [OF assms]
  by (simp add: newTrackingResponseWriter_def)


lemma route_matched:
  "Router_Match (router hn) r = Some m \<Longrightarrow> route hn r = serve_matched hn m r"
  by (simp add: route_def options_branch_def)

lemma guard_passed:
  "\<not> (0 < bodyLimit hn \<and> bodyLimit hn < ContentLength r) \<Longrightarrow>
     ServeHTTP_calls hn r = route hn (install_limiter hn r)"
  by (auto simp: ServeHTTP_calls_def)

lemma install_limiter_fields [simp]:
  "Method (install_limiter hn r) = Method r"
  "Path (install_limiter hn r) = Path r"
  by (simp_all add: install_limiter_def)

lemma inject_fields [simp]:
  "Method (inject hn m r) = Method r"
  "Path (inject hn m r) = Path r"
  "Body (inject hn m r) = Body r"
  by (simp_all add: inject_def Let_def)

lemma too_large_calls:
  "0 < bodyLimit hn \<Longrightarrow> bodyLimit hn < ContentLength r \<Longrightarrow>
     ServeHTTP_calls hn r = (http_Error ''Request body too large'' 413, None)"
  by (simp add: ServeHTTP_calls_def)

lemma spec_status_http_Error [simp]: "spec_status (http_Error msg code) = [WriteHeader code]"
  by (simp add: http_Error_def)

lemma filter_Write_http_Error [simp]:
  "filter is_Write (http_Error msg code) = [Write (msg @ [CHR 0x0A])]"
  by (simp add: http_Error_def)

text \<open>
  C5. With a body limit \<open>N > 0\<close>: a request that declares more than \<open>N\<close> bytes gets the
  413 response and nothing else happens (the calls made do not depend on the router or on
  any handler); a request that declares at most \<open>N\<close> bytes, or no length (\<open>-1\<close>), is
  routed with the reading limiter around its body, through which a body longer than \<open>N\<close>
  fails to read and a body of at most \<open>N\<close> bytes, so one of exactly \<open>N\<close>, reads in full.
  With a limit of zero or less the request is routed as it came, whatever it declares.
\<close>

theorem body_limit_guard:
  "(0 < bodyLimit hn \<and> bodyLimit hn < ContentLength r \<longrightarrow>
      ServeHTTP_calls hn r = (http_Error ''Request body too large'' 413, None)
      \<and> received (inner (fst (ServeHTTP hn w r))) =
          received w @ [WriteHeader 413, Write (''Request body too large'' @ [CHR 0x0A])])
   \<and> (0 < bodyLimit hn \<and> ContentLength r \<le> bodyLimit hn \<longrightarrow>
        ServeHTTP_calls hn r = route hn (r\<lparr>Body := MaxBytesReader (Body r) (bodyLimit hn)\<rparr>))
   \<and> (bodyLimit hn < int (length bs) \<longrightarrow>
        ReadAll (MaxBytesReader (Plain bs) (bodyLimit hn)) = Inl (MaxBytesError (bodyLimit hn)))
   \<and> (int (length bs) \<le> bodyLimit hn \<longrightarrow>
        ReadAll (MaxBytesReader (Plain bs) (bodyLimit hn)) = Inr bs)
   \<and> (bodyLimit hn \<le> 0 \<longrightarrow> ServeHTTP_calls hn r = route hn r)"
proof (intro conjI impI)
  assume a: "0 < bodyLimit hn \<and> bodyLimit hn < ContentLength r"
  then show c: "ServeHTTP_calls hn r = (http_Error ''Request body too large'' 413, None)"
    by (simp add: too_large_calls)
  show "received (inner (fst (ServeHTTP hn w r))) =
          received w @ [WriteHeader 413, Write (''Request body too large'' @ [CHR 0x0A])]"
    unfolding ServeHTTP_received [OF c] by simp
next
  assume "0 < bodyLimit hn \<and> ContentLength r \<le> bodyLimit hn"
  then show "ServeHTTP_calls hn r = route hn (r\<lparr>Body := MaxBytesReader (Body r) (bodyLimit hn)\<rparr>)"
    by (simp add: ServeHTTP_calls_def install_limiter_def)
next
  assume "bodyLimit hn < int (length bs)"
  then show "ReadAll (MaxBytesReader (Plain bs) (bodyLimit hn)) = Inl (MaxBytesError (bodyLimit hn))"
    by simp
next
  assume "int (length bs) \<le> bodyLimit hn"
  then show "ReadAll (MaxBytesReader (Plain bs) (bodyLimit hn)) = Inr bs"
    by simp
next
  assume "bodyLimit hn \<le> 0"
  then show "ServeHTTP_calls hn r = route hn r"
    by (simp add: ServeHTTP_calls_def install_limiter_def)
qed

lemma demo_bodyLimit: "bodyLimit demo_handler = 4"
  by (simp add: demo_handler_def NewHandler_def)

theorem body_limit_guard_witness:
  "(0 < bodyLimit demo_handler
      \<and> bodyLimit demo_handler < ContentLength (req0\<lparr>Method := ''POST'', Path := ''/a'', ContentLength := 5\<rparr>)
      \<and> received (inner (fst (ServeHTTP demo_handler w0
            (req0\<lparr>Method := ''POST'', Path := ''/a'', ContentLength := 5\<rparr>))))
          = [WriteHeader 413, Write (''Request body too large'' @ [CHR 0x0A])])
   \<and> (ContentLength (req0\<lparr>Method := ''POST'', Path := ''/a'', ContentLength := 4,
                            Body := Plain ''1234''\<rparr>) \<le> bodyLimit demo_handler
      \<and> ServeHTTP_calls demo_handler
           (req0\<lparr>Method := ''POST'', Path := ''/a'', ContentLength := 4, Body := Plain ''1234''\<rparr>)
         = route demo_handler
             (req0\<lparr>Method := ''POST'', Path := ''/a'', ContentLength := 4,
                    Body := MaxBytesReader (Plain ''1234'') 4\<rparr>))
   \<and> (bodyLimit demo_handler < int (length ''12345'')
      \<and> ReadAll (MaxBytesReader (Plain ''12345'') 4) = Inl (MaxBytesError 4))
   \<and> (int (length ''1234'') \<le> bodyLimit demo_handler
      \<and> ReadAll (MaxBytesReader (Plain ''1234'') 4) = Inr ''1234'')
   \<and> (bodyLimit (demo_handler\<lparr>bodyLimit := 0\<rparr>) \<le> 0
      \<and> ServeHTTP_calls (demo_handler\<lparr>bodyLimit := 0\<rparr>)
           (req0\<lparr>Method := ''POST'', Path := ''/a'', ContentLength := 5\<rparr>)
         = route (demo_handler\<lparr>bodyLimit := 0\<rparr>)
             (req0\<lparr>Method := ''POST'', Path := ''/a'', ContentLength := 5\<rparr>))"
proof -
  let ?big = "req0\<lparr>Method := ''POST'', Path := ''/a'', ContentLength := 5\<rparr>"
  let ?fit = "req0\<lparr>Method := ''POST'', Path := ''/a'', ContentLength := 4, Body := Plain ''1234''\<rparr>"
  have g1: "0 < bodyLimit demo_handler \<and> bodyLimit demo_handler < ContentLength ?big"
    by (simp add: demo_bodyLimit)
  have g2: "0 < bodyLimit demo_handler \<and> ContentLength ?fit \<le> bodyLimit demo_handler"
    by (simp add: demo_bodyLimit)
  have g3: "bodyLimit demo_handler < int (length ''12345'')"
    by (simp add: demo_bodyLimit)
  have g4: "int (length ''1234'') \<le> bodyLimit demo_handler"
    by (simp add: demo_bodyLimit)
  have g5: "bodyLimit (demo_handler\<lparr>bodyLimit := 0\<rparr>) \<le> 0"
    by simp
  have rw: "received w0 = []" by (simp add: w0_def)
  have fit: "?fit\<lparr>Body := MaxBytesReader (Body ?fit) 4\<rparr>
      = req0\<lparr>Method := ''POST'', Path := ''/a'', ContentLength := 4,
             Body := MaxBytesReader (Plain ''1234'') 4\<rparr>"
    by simp
  note t1 = body_limit_guard [of demo_handler ?big w0 "''12345''"]
  note t2 = body_limit_guard [of demo_handler ?fit w0 "''1234''"]
  note t3 = body_limit_guard [of "demo_handler\<lparr>bodyLimit := 0\<rparr>" ?big w0 "''1234''"]
  from t1 g1 rw have a: "received (inner (fst (ServeHTTP demo_handler w0 ?big)))
          = [WriteHeader 413, Write (''Request body too large'' @ [CHR 0x0A])]"
    by simp
  from t2 g2 have b: "ServeHTTP_calls demo_handler ?fit
         = route demo_handler (?fit\<lparr>Body := MaxBytesReader (Body ?fit) (bodyLimit demo_handler)\<rparr>)"
    by blast
  from t1 g3 have c: "ReadAll (MaxBytesReader (Plain ''12345'') (bodyLimit demo_handler))
      = Inl (MaxBytesError (bodyLimit demo_handler))"
    by blast
  from t2 g4 have d: "ReadAll (MaxBytesReader (Plain ''1234'') (bodyLimit demo_handler)) = Inr ''1234''"
    by blast
  from t3 g5 have e: "ServeHTTP_calls (demo_handler\<lparr>bodyLimit := 0\<rparr>) ?big
         = route (demo_handler\<lparr>bodyLimit := 0\<rparr>) ?big"
    by blast
  from g1 g2 g3 g4 g5 a b c d e show ?thesis
    unfolding demo_bodyLimit fit by simp
qed

section \<open>Panic recovery\<close>

lemma createRecoverer_panic:
  "next r = (cs, Some v) \<Longrightarrow> createRecoverer next r = (cs @ panicRecovery v, None)"
  by (simp add: createRecoverer_def)


lemma emitted_append: "emitted (cs @ ds) = emitted cs @ emitted ds"
  by (simp add: emitted_def)

lemma emitted_panicRecovery:
  "emitted (panicRecovery v) =
     [\<lparr>Type = ''event_panic'', Message = ''Panic recovered: '' @ fmt_v v,
       Data = Some [(''panic'', v)]\<rparr>]"
  by (simp add: panicRecovery_def emitted_def http_Error_def NewEvent_def WithData_def
      EventPanic_def)

lemma spec_status_panicRecovery: "spec_status (panicRecovery v) = [WriteHeader 500]"
  by (simp add: panicRecovery_def)

lemma filter_Write_panicRecovery:
  "filter is_Write (panicRecovery v) = [Write (''Internal Server Error'' @ [CHR 0x0A])]"
  by (simp add: panicRecovery_def)

lemma recovered_outcome:
  assumes c: "ServeHTTP_calls hn r = (cs @ panicRecovery v, None)"
  shows "snd (snd (ServeHTTP hn w r)) = None
    \<and> fst (snd (ServeHTTP hn w r)) =
        emitted cs @ [\<lparr>Type = ''event_panic'', Message = ''Panic recovered: '' @ fmt_v v,
                       Data = Some [(''panic'', v)]\<rparr>]
    \<and> received (inner (fst (ServeHTTP hn w r))) =
        received w @ (if spec_status cs = [] then [WriteHeader 500] else spec_status cs)
          @ filter is_Write cs @ [Write (''Internal Server Error'' @ [CHR 0x0A])]"
  unfolding ServeHTTP_parts(2,3) [OF c] ServeHTTP_received [OF c]
  by (simp add: emitted_append emitted_panicRecovery spec_status_append
      spec_status_panicRecovery filter_Write_panicRecovery)

lemma emitted_discarding: "emitted (discardingWriter_calls cs) = emitted cs"
proof (induction cs)
  case Nil
  show ?case by (simp add: discardingWriter_calls_def)
next
  case (Cons c cs)
  then show ?case by (cases c) (simp_all add: discardingWriter_calls_def emitted_def)
qed

lemma filter_Write_discarding: "filter is_Write (discardingWriter_calls cs) = []"
  by (simp add: discardingWriter_calls_def filter_Write_no_Write)

lemma head_fallback_calls:
  assumes "Method r = ''HEAD''"
    and "Router_Match (router hn) r = None"
    and "Router_Match (router hn) (r\<lparr>Method := ''GET''\<rparr>) = Some m2"
    and "Handler m2 (inject hn m2 (r\<lparr>Method := ''GET''\<rparr>)) = (cs, p)"
  shows "route hn r =
     recoverer hn (\<lambda>_. (discardingWriter_calls cs, p)) (inject hn m2 (r\<lparr>Method := ''GET''\<rparr>))"
  using assms by (simp add: route_def head_fallback_def Let_def)

text \<open>
  C4, as the code has it. The claim says that the event emitted for a recovered panic
  carries the panic value and a call-stack snapshot, and that the response is a 500.
  For the handler of \<open>/boom\<close>, which panics with the string \<open>boom\<close>, the one event
  emitted holds its type, the message made of the value, and a data map with the single
  key \<open>panic\<close>: nothing of a call stack. For the handler of \<open>/late\<close>, which panics after
  a status and a body, the status passed on stays 200.
\<close>

theorem panic_event_stack_snapshot_counterexample:
  "fst (snd (ServeHTTP demo_handler w0 (req0\<lparr>Path := ''/boom''\<rparr>)))
     = [\<lparr>Type = ''event_panic'', Message = ''Panic recovered: boom'',
         Data = Some [(''panic'', AString ''boom'')]\<rparr>]
   \<and> received (inner (fst (ServeHTTP demo_handler w0 (req0\<lparr>Path := ''/late''\<rparr>))))
     = [WriteHeader 200, Write ''part'', Write (''Internal Server Error'' @ [CHR 0x0A])]"
  by code_simp

text \<open>
  C4, amended. With the built-in recoverer and a request past the body guard, a handler
  that panics with any value after some calls, be it the handler of the matched route or
  the \<open>GET\<close> handler of the \<open>HEAD\<close> fallback, never lets the panic leave \<open>ServeHTTP\<close>. One
  event of type \<open>event_panic\<close> is emitted after the handler's own; its message is
  \<open>Panic recovered:\<close> followed by the value and its data holds the value under \<open>panic\<close>
  (there is no call-stack snapshot). The writer below then receives status 500 unless a
  status was committed before the panic, in which case that one stays, and after the
  handler's body writes the fixed text \<open>Internal Server Error\<close> and a newline, which does
  not depend on the panic value.
\<close>

theorem panic_recovered_at_dispatch:
  assumes "recoverer hn = createRecoverer"
    and "\<not> (0 < bodyLimit hn \<and> bodyLimit hn < ContentLength r)"
  shows
  "(Router_Match (router hn) (install_limiter hn r) = Some m \<longrightarrow>
    Handler m (inject hn m (install_limiter hn r)) = (cs, Some v) \<longrightarrow>
      snd (snd (ServeHTTP hn w r)) = None
      \<and> fst (snd (ServeHTTP hn w r)) =
          emitted cs @ [\<lparr>Type = ''event_panic'', Message = ''Panic recovered: '' @ fmt_v v,
                         Data = Some [(''panic'', v)]\<rparr>]
      \<and> received (inner (fst (ServeHTTP hn w r))) =
          received w @ (if spec_status cs = [] then [WriteHeader 500] else spec_status cs)
            @ filter is_Write cs @ [Write (''Internal Server Error'' @ [CHR 0x0A])])
   \<and> (Method r = ''HEAD'' \<longrightarrow>
      Router_Match (router hn) (install_limiter hn r) = None \<longrightarrow>
      Router_Match (router hn) ((install_limiter hn r)\<lparr>Method := ''GET''\<rparr>) = Some m \<longrightarrow>
      Handler m (inject hn m ((install_limiter hn r)\<lparr>Method := ''GET''\<rparr>)) = (cs, Some v) \<longrightarrow>
        snd (snd (ServeHTTP hn w r)) = None
        \<and> fst (snd (ServeHTTP hn w r)) =
            emitted cs @ [\<lparr>Type = ''event_panic'', Message = ''Panic recovered: '' @ fmt_v v,
                           Data = Some [(''panic'', v)]\<rparr>]
        \<and> received (inner (fst (ServeHTTP hn w r))) =
            received w
              @ (if spec_status (discardingWriter_calls cs) = [] then [WriteHeader 500]
                 else spec_status (discardingWriter_calls cs))
              @ [Write (''Internal Server Error'' @ [CHR 0x0A])])"
proof (intro conjI impI)
  assume m: "Router_Match (router hn) (install_limiter hn r) = Some m"
    and p: "Handler m (inject hn m (install_limiter hn r)) = (cs, Some v)"
  have "ServeHTTP_calls hn r = (cs @ panicRecovery v, None)"
    unfolding guard_passed [OF assms(2)] route_matched [OF m] serve_matched_def assms(1)
    by (rule createRecoverer_panic) (rule p)
  from recovered_outcome [OF this, of w]
  show "snd (snd (ServeHTTP hn w r)) = None"
    and "fst (snd (ServeHTTP hn w r)) =
          emitted cs @ [\<lparr>Type = ''event_panic'', Message = ''Panic recovered: '' @ fmt_v v,
                         Data = Some [(''panic'', v)]\<rparr>]"
    and "received (inner (fst (ServeHTTP hn w r))) =
          received w @ (if spec_status cs = [] then [WriteHeader 500] else spec_status cs)
            @ filter is_Write cs @ [Write (''Internal Server Error'' @ [CHR 0x0A])]"
    by blast+
next
  assume hd: "Method r = ''HEAD''"
    and n: "Router_Match (router hn) (install_limiter hn r) = None"
    and m: "Router_Match (router hn) ((install_limiter hn r)\<lparr>Method := ''GET''\<rparr>) = Some m"
    and p: "Handler m (inject hn m ((install_limiter hn r)\<lparr>Method := ''GET''\<rparr>)) = (cs, Some v)"
  from hd have hd': "Method (install_limiter hn r) = ''HEAD''" by simp
  have "ServeHTTP_calls hn r = (discardingWriter_calls cs @ panicRecovery v, None)"
    unfolding guard_passed [OF assms(2)] head_fallback_calls [OF hd' n m p] assms(1)
    by (rule createRecoverer_panic) simp
  from recovered_outcome [OF this, of w]
  show "snd (snd (ServeHTTP hn w r)) = None"
    and "fst (snd (ServeHTTP hn w r)) =
          emitted cs @ [\<lparr>Type = ''event_panic'', Message = ''Panic recovered: '' @ fmt_v v,
                         Data = Some [(''panic'', v)]\<rparr>]"
    and "received (inner (fst (ServeHTTP hn w r))) =
            received w
              @ (if spec_status (discardingWriter_calls cs) = [] then [WriteHeader 500]
                 else spec_status (discardingWriter_calls cs))
              @ [Write (''Internal Server Error'' @ [CHR 0x0A])]"
    by (simp_all add: emitted_discarding filter_Write_discarding)
qed
lemmas demo_eval =
  demo_handler_def NewHandler_def builtin_def register_all_def install_limiter_def req0_def
  router_eval

lemma demo_recoverer: "recoverer demo_handler = createRecoverer"
  by (simp add: demo_handler_def NewHandler_def)

lemma demo_match_boom:
  "Router_Match (router demo_handler) (install_limiter demo_handler (req0\<lparr>Path := ''/boom''\<rparr>))
     = Some \<lparr>Handler = h_boom, Params = Some []\<rparr>"
  by (simp add: demo_eval)

lemma demo_match_head_late:
  "Router_Match (router demo_handler)
     (install_limiter demo_handler (req0\<lparr>Method := ''HEAD'', Path := ''/late''\<rparr>)) = None"
  "Router_Match (router demo_handler)
     ((install_limiter demo_handler (req0\<lparr>Method := ''HEAD'', Path := ''/late''\<rparr>))
        \<lparr>Method := ''GET''\<rparr>)
     = Some \<lparr>Handler = h_late, Params = Some []\<rparr>"
  by (simp_all add: demo_eval)

theorem panic_recovered_at_dispatch_witness:
  "recoverer demo_handler = createRecoverer
   \<and> \<not> (0 < bodyLimit demo_handler
         \<and> bodyLimit demo_handler < ContentLength (req0\<lparr>Path := ''/boom''\<rparr>))
   \<and> snd (snd (ServeHTTP demo_handler w0 (req0\<lparr>Path := ''/boom''\<rparr>))) = None
   \<and> fst (snd (ServeHTTP demo_handler w0 (req0\<lparr>Path := ''/boom''\<rparr>)))
       = [\<lparr>Type = ''event_panic'', Message = ''Panic recovered: boom'',
           Data = Some [(''panic'', AString ''boom'')]\<rparr>]
   \<and> received (inner (fst (ServeHTTP demo_handler w0 (req0\<lparr>Path := ''/boom''\<rparr>))))
       = [WriteHeader 500, Write (''Internal Server Error'' @ [CHR 0x0A])]
   \<and> snd (snd (ServeHTTP demo_handler w0 (req0\<lparr>Method := ''HEAD'', Path := ''/late''\<rparr>))) = None
   \<and> received (inner (fst (ServeHTTP demo_handler w0
         (req0\<lparr>Method := ''HEAD'', Path := ''/late''\<rparr>))))
       = [WriteHeader 200, Write (''Internal Server Error'' @ [CHR 0x0A])]"
proof -
  let ?qa = "req0\<lparr>Path := ''/boom''\<rparr>"
  let ?qb = "req0\<lparr>Method := ''HEAD'', Path := ''/late''\<rparr>"
  let ?ma = "\<lparr>Handler = h_boom, Params = Some []\<rparr>"
  let ?mb = "\<lparr>Handler = h_late, Params = Some []\<rparr>"
  have ga: "\<not> (0 < bodyLimit demo_handler \<and> bodyLimit demo_handler < ContentLength ?qa)"
    by (simp add: req0_def)
  have gb: "\<not> (0 < bodyLimit demo_handler \<and> bodyLimit demo_handler < ContentLength ?qb)"
    by (simp add: req0_def)
  have pa: "Handler ?ma (inject demo_handler ?ma (install_limiter demo_handler ?qa))
      = ([], Some (AString ''boom''))"
    by (simp add: h_boom_def)
  have pb: "Handler ?mb (inject demo_handler ?mb ((install_limiter demo_handler ?qb)\<lparr>Method := ''GET''\<rparr>))
      = ([WriteHeader 200, Write ''part''], Some (AString ''boom''))"
    by (simp add: h_late_def)
  have hb: "Method ?qb = ''HEAD''" by simp
  have rw: "received w0 = []" by (simp add: w0_def)
  from panic_recovered_at_dispatch [OF demo_recoverer ga, of ?ma "[]" "AString ''boom''" w0]
    demo_match_boom pa
  have a: "snd (snd (ServeHTTP demo_handler w0 ?qa)) = None
      \<and> fst (snd (ServeHTTP demo_handler w0 ?qa)) =
          emitted [] @ [\<lparr>Type = ''event_panic'', Message = ''Panic recovered: '' @ fmt_v (AString ''boom''),
                         Data = Some [(''panic'', AString ''boom'')]\<rparr>]
      \<and> received (inner (fst (ServeHTTP demo_handler w0 ?qa))) =
          received w0 @ (if spec_status [] = [] then [WriteHeader 500] else spec_status [])
            @ filter is_Write [] @ [Write (''Internal Server Error'' @ [CHR 0x0A])]"
    by blast
  from panic_recovered_at_dispatch [OF demo_recoverer gb, of ?mb "[WriteHeader 200, Write ''part'']"
      "AString ''boom''" w0]
    hb demo_match_head_late pb
  have b: "snd (snd (ServeHTTP demo_handler w0 ?qb)) = None
        \<and> fst (snd (ServeHTTP demo_handler w0 ?qb)) =
            emitted [WriteHeader 200, Write ''part'']
              @ [\<lparr>Type = ''event_panic'', Message = ''Panic recovered: '' @ fmt_v (AString ''boom''),
                           Data = Some [(''panic'', AString ''boom'')]\<rparr>]
        \<and> received (inner (fst (ServeHTTP demo_handler w0 ?qb))) =
            received w0
              @ (if spec_status (discardingWriter_calls [WriteHeader 200, Write ''part'']) = []
                 then [WriteHeader 500]
                 else spec_status (discardingWriter_calls [WriteHeader 200, Write ''part'']))
              @ [Write (''Internal Server Error'' @ [CHR 0x0A])]"
    by blast
  from a b ga demo_recoverer rw show ?thesis
    by (simp add: emitted_def discardingWriter_calls_def)
qed

section \<open>The HEAD fallback\<close>











section \<open>OPTIONS requests\<close>











end
